theory Spec2Isabelle
  imports Complex_Main
begin

section \<open>JavaScript numbers\<close>

text \<open>
  The calculator computes with JavaScript numbers, which are doubles. A number is modelled
  as a real or one of the three special values that a division by zero brings into a
  computation, with the arithmetic and the comparisons that JavaScript gives them (every
  comparison with NaN is false). On finite operands the arithmetic is that of the reals:
  the rounding of each operation to the nearest double, the overflow of a large result to
  an infinity and the sign of a zero are not modelled (a zero divisor counts as positive
  zero). A statement on the values that the program computes is therefore a statement up to
  rounding, and one for inputs whose intermediate values stay inside the doubles; a
  statement on which operations the program applies, in which order and under which
  tests, does not depend on this. A numeral read from a text is the decimal it denotes,
  unless that lies beyond the doubles.
\<close>

datatype number = Fin real | PosInfinity | NegInfinity | NaN

fun isFinite :: "number \<Rightarrow> bool" where
  "isFinite (Fin r) = True"
| "isFinite PosInfinity = False"
| "isFinite NegInfinity = False"
| "isFinite NaN = False"

fun infinity_of_sign :: "real \<Rightarrow> number" where
  "infinity_of_sign s = (if s = 0 then NaN else if 0 < s then PosInfinity else NegInfinity)"

fun sign_of :: "number \<Rightarrow> real" where
  "sign_of (Fin r) = sgn r"
| "sign_of PosInfinity = 1"
| "sign_of NegInfinity = - 1"
| "sign_of NaN = 0"

instantiation number :: "{uminus, plus, minus, times, inverse, ord}"
begin

fun uminus_number :: "number \<Rightarrow> number" where
  "uminus_number (Fin r) = Fin (- r)"
| "uminus_number PosInfinity = NegInfinity"
| "uminus_number NegInfinity = PosInfinity"
| "uminus_number NaN = NaN"

fun plus_number :: "number \<Rightarrow> number \<Rightarrow> number" where
  "plus_number (Fin a) (Fin b) = Fin (a + b)"
| "plus_number NaN b = NaN"
| "plus_number a NaN = NaN"
| "plus_number PosInfinity NegInfinity = NaN"
| "plus_number NegInfinity PosInfinity = NaN"
| "plus_number PosInfinity b = PosInfinity"
| "plus_number NegInfinity b = NegInfinity"
| "plus_number a PosInfinity = PosInfinity"
| "plus_number a NegInfinity = NegInfinity"

definition minus_number :: "number \<Rightarrow> number \<Rightarrow> number" where
  "minus_number a b = a + (- b)"

fun times_number :: "number \<Rightarrow> number \<Rightarrow> number" where
  "times_number (Fin a) (Fin b) = Fin (a * b)"
| "times_number NaN b = NaN"
| "times_number a NaN = NaN"
| "times_number a b = infinity_of_sign (sign_of a * sign_of b)"

fun divide_number :: "number \<Rightarrow> number \<Rightarrow> number" where
  "divide_number (Fin a) (Fin b) = (if b = 0 then infinity_of_sign (sgn a) else Fin (a / b))"
| "divide_number NaN b = NaN"
| "divide_number a NaN = NaN"
| "divide_number (Fin a) b = Fin 0"
| "divide_number a (Fin b) = infinity_of_sign (sign_of a * (if b < 0 then - 1 else 1))"
| "divide_number a b = NaN"

definition inverse_number :: "number \<Rightarrow> number" where
  "inverse_number a = Fin 1 div a"

fun less_eq_number :: "number \<Rightarrow> number \<Rightarrow> bool" where
  "less_eq_number (Fin a) (Fin b) = (a \<le> b)"
| "less_eq_number NaN b = False"
| "less_eq_number a NaN = False"
| "less_eq_number NegInfinity b = True"
| "less_eq_number a PosInfinity = True"
| "less_eq_number a b = False"

fun less_number :: "number \<Rightarrow> number \<Rightarrow> bool" where
  "less_number (Fin a) (Fin b) = (a < b)"
| "less_number NaN b = False"
| "less_number a NaN = False"
| "less_number PosInfinity b = False"
| "less_number a NegInfinity = False"
| "less_number a b = True"

instance ..

end

text \<open>\<^verbatim>\<open>a || b\<close> on numbers: zero and NaN are falsy.\<close>

fun truthy :: "number \<Rightarrow> bool" where
  "truthy (Fin r) = (r \<noteq> 0)"
| "truthy PosInfinity = True"
| "truthy NegInfinity = True"
| "truthy NaN = False"

definition or_else :: "number \<Rightarrow> number \<Rightarrow> number" where
  "or_else a b = (if truthy a then a else b)"

text \<open>\<^verbatim>\<open>Math.abs\<close>, \<^verbatim>\<open>Math.round\<close> (a half rounds up) and
  \<^verbatim>\<open>Number(v.toFixed(d))\<close> (a half rounds away from zero; from \<open>10^21\<close> on
  \<^verbatim>\<open>toFixed\<close> prints the number itself).\<close>

fun Math_abs :: "number \<Rightarrow> number" where
  "Math_abs (Fin r) = Fin \<bar>r\<bar>"
| "Math_abs PosInfinity = PosInfinity"
| "Math_abs NegInfinity = PosInfinity"
| "Math_abs NaN = NaN"

fun Math_round :: "number \<Rightarrow> number" where
  "Math_round (Fin r) = Fin (of_int \<lfloor>r + 1 / 2\<rfloor>)"
| "Math_round v = v"

definition round_fixed :: "nat \<Rightarrow> real \<Rightarrow> real" where
  "round_fixed d r =
     (if 10 ^ 21 \<le> \<bar>r\<bar> then r
      else sgn r * of_int \<lfloor>\<bar>r\<bar> * 10 ^ d + 1 / 2\<rfloor> / 10 ^ d)"

fun toFixed :: "nat \<Rightarrow> number \<Rightarrow> number" where
  "toFixed d (Fin r) = Fin (round_fixed d r)"
| "toFixed d v = v"

section \<open>Strings\<close>

text \<open>
  Strings are byte lists. \<^verbatim>\<open>trim\<close> and \<^verbatim>\<open>Number\<close> strip white space and line
  terminators; the model knows the six ASCII ones.
\<close>

definition is_space :: "char \<Rightarrow> bool" where
  "is_space c = (c \<in> set [CHR 0x09, CHR 0x0A, CHR 0x0B, CHR 0x0C, CHR 0x0D, CHR 0x20])"

definition trim :: "string \<Rightarrow> string" where
  "trim s = rev (dropWhile is_space (rev (dropWhile is_space s)))"

text \<open>\<^verbatim>\<open>s.split(sep)\<close> for a separator that matches single characters: the pieces
  between the matches, empty pieces included, so the result is never empty.\<close>

fun split :: "(char \<Rightarrow> bool) \<Rightarrow> string \<Rightarrow> string list" where
  "split sep [] = [[]]"
| "split sep (c # cs) =
     (if sep c then [] # split sep cs
      else (case split sep cs of [] \<Rightarrow> [[c]] | w # ws \<Rightarrow> (c # w) # ws))"

subsection \<open>\<^verbatim>\<open>Number(string)\<close>\<close>

definition hex_value :: "char \<Rightarrow> nat option" where
  "hex_value c =
     (let n = (of_char c :: nat) in
      if 48 \<le> n \<and> n \<le> 57 then Some (n - 48)
      else if 65 \<le> n \<and> n \<le> 70 then Some (n - 55)
      else if 97 \<le> n \<and> n \<le> 102 then Some (n - 87)
      else None)"

definition digits_in :: "nat \<Rightarrow> string \<Rightarrow> bool" where
  "digits_in base s = list_all (\<lambda>c. case hex_value c of None \<Rightarrow> False | Some v \<Rightarrow> v < base) s"

definition digits_value :: "nat \<Rightarrow> string \<Rightarrow> int" where
  "digits_value base s =
     foldl (\<lambda>acc c. acc * int base + (case hex_value c of None \<Rightarrow> 0 | Some v \<Rightarrow> int v)) 0 s"

definition is_exponent_indicator :: "char \<Rightarrow> bool" where
  "is_exponent_indicator c = (c = CHR ''e'' \<or> c = CHR ''E'')"

definition signed_integer :: "string \<Rightarrow> int option" where
  "signed_integer s =
     (let (neg, ds) =
        (case s of
           c # r \<Rightarrow> if c = CHR ''-'' then (True, r) else if c = CHR ''+'' then (False, r) else (False, s)
         | [] \<Rightarrow> (False, s))
      in if ds \<noteq> [] \<and> digits_in 10 ds
         then Some (if neg then - digits_value 10 ds else digits_value 10 ds)
         else None)"

definition scale10 :: "real \<Rightarrow> int \<Rightarrow> real" where
  "scale10 r e = (if 0 \<le> e then r * 10 ^ nat e else r / 10 ^ nat (- e))"

text \<open>
  The number for the mathematical value of a literal. A value that rounds beyond the largest
  double, \<open>2^1024 - 2^970\<close> or more, is an infinity, and one that rounds below the smallest,
  \<open>2^-1075\<close> or less, is zero; in between the value is kept as it is. The two bounds are
  written out in decimal.
\<close>

definition overflow_bound :: real where
  "overflow_bound =
     179769313486231580793728971405303415079934132710037826936173778980444968292764750946649017977587207096330286416692887910946555547851940402630657488671505820681908902000708383676273854845817711531764475730270069855571366959622842914819860834936475292719074168444365510704342711559699508093042880177904174497792"

definition underflow_bound :: real where
  "underflow_bound =
     1 / 404804506614621236704990693437834614099113299528284236713802716054860679135990693783920767402874248990374155728633623822779617474771586953734026799881477019843034848553132722728933815484186432682479535356945490137124014966849385397236206711298319112681620113024717539104666829230461005064372655017292012526615415482186989568"

definition RoundMVResult :: "real \<Rightarrow> number" where
  "RoundMVResult v =
     (if overflow_bound \<le> \<bar>v\<bar> then infinity_of_sign v
      else if \<bar>v\<bar> \<le> underflow_bound then Fin 0
      else Fin v)"

text \<open>StrUnsignedDecimalLiteral: \<^verbatim>\<open>Infinity\<close>, or digits with an optional fraction and an
  optional exponent, at least one digit in the mantissa.\<close>

definition unsigned_decimal :: "string \<Rightarrow> number" where
  "unsigned_decimal s =
     (if s = ''Infinity'' then PosInfinity
      else
        let mant = takeWhile (\<lambda>c. \<not> is_exponent_indicator c) s;
            expo = dropWhile (\<lambda>c. \<not> is_exponent_indicator c) s;
            ip = takeWhile (\<lambda>c. c \<noteq> CHR ''.'') mant;
            fp = drop 1 (dropWhile (\<lambda>c. c \<noteq> CHR ''.'') mant);
            e = (if expo = [] then Some 0 else signed_integer (tl expo))
        in if digits_in 10 ip \<and> digits_in 10 fp \<and> (ip \<noteq> [] \<or> fp \<noteq> [])
           then (case e of
                   None \<Rightarrow> NaN
                 | Some k \<Rightarrow>
                     RoundMVResult
                       (scale10 (real_of_int (digits_value 10 ip)
                                 + real_of_int (digits_value 10 fp) / 10 ^ length fp) k))
           else NaN)"

definition non_decimal :: "string \<Rightarrow> number option" where
  "non_decimal s =
     (case s of
        z # p # ds \<Rightarrow>
          (let base = (if p = CHR ''x'' \<or> p = CHR ''X'' then 16
                       else if p = CHR ''o'' \<or> p = CHR ''O'' then 8
                       else if p = CHR ''b'' \<or> p = CHR ''B'' then 2 else (0::nat))
           in if z = CHR ''0'' \<and> base \<noteq> 0
              then Some (if ds \<noteq> [] \<and> digits_in base ds
                         then RoundMVResult (real_of_int (digits_value base ds)) else NaN)
              else None)
      | _ \<Rightarrow> None)"

definition Number_js :: "string \<Rightarrow> number" where
  "Number_js str =
     (let s = trim str in
      if s = [] then Fin 0
      else (case non_decimal s of
              Some v \<Rightarrow> v
            | None \<Rightarrow>
                (case s of
                   c # r \<Rightarrow>
                     if c = CHR ''+'' then unsigned_decimal r
                     else if c = CHR ''-'' then - unsigned_decimal r
                     else unsigned_decimal s
                 | [] \<Rightarrow> Fin 0)))"

text \<open>\<^verbatim>\<open>Number(undefined)\<close> is NaN: a missing array element is \<open>None\<close>.\<close>

definition Number_of :: "string option \<Rightarrow> number" where
  "Number_of v = (case v of None \<Rightarrow> NaN | Some s \<Rightarrow> Number_js s)"

section \<open>Helpers\<close>

definition toNumber :: "string \<Rightarrow> number \<Rightarrow> number" where
  "toNumber v fallback = (let n = Number_js v in if isFinite n then n else fallback)"

text \<open>A coordinate that passed \<^verbatim>\<open>Number.isFinite\<close> holds reals; the y of a normalised bin
  is the result of a division and is kept as a number.\<close>

record 'n coordinate =
  x :: real
  y :: 'n

definition element :: "'a list \<Rightarrow> nat \<Rightarrow> 'a option" where
  "element xs i = (if i < length xs then Some (xs ! i) else None)"

text \<open>The object \<^verbatim>\<open>{ x: Number(a), y: Number(b) }\<close> built from one entry, before the
  finiteness filter.\<close>

definition pair_of :: "string \<Rightarrow> number \<times> number" where
  "pair_of pair =
     (let fields = map trim (split (\<lambda>c. c = CHR '':'') pair)
      in (Number_of (element fields 0), Number_of (element fields 1)))"

fun finite_pair :: "number \<times> number \<Rightarrow> real coordinate option" where
  "finite_pair (Fin a, Fin b) = Some \<lparr>x = a, y = b\<rparr>"
| "finite_pair p = None"

definition parsePairs :: "string \<Rightarrow> real coordinate list" where
  "parsePairs text =
     sort_key x
       (List.map_filter finite_pair
          (map pair_of
             (filter (\<lambda>s. s \<noteq> [])
                (map trim (split (\<lambda>c. c = CHR 0x0A \<or> c = CHR '','') text)))))"

text \<open>The scan of \<^verbatim>\<open>interpCOP\<close> over the adjacent pairs, from index \<open>i\<close>; \<open>None\<close>
  when the loop ends without a return.\<close>

function interp_scan :: "real coordinate list \<Rightarrow> real \<Rightarrow> nat \<Rightarrow> number option" where
  "interp_scan table t i =
     (if i < length table - 1
      then (if x (table ! i) \<le> t \<and> t \<le> x (table ! (i + 1))
            then Some (Fin (y (table ! i))
                       + (Fin t - Fin (x (table ! i)))
                         / or_else (Fin (x (table ! (i + 1))) - Fin (x (table ! i))) (Fin 1)
                         * (Fin (y (table ! (i + 1))) - Fin (y (table ! i))))
            else interp_scan table t (i + 1))
      else None)"
  by pat_completeness auto
termination
  by (relation "measure (\<lambda>(table, t, i). length table - i)") auto

declare interp_scan.simps [simp del]

definition interpCOP :: "real coordinate list \<Rightarrow> real \<Rightarrow> number" where
  "interpCOP table t =
     (if length table = 0 then Fin 2.2
      else if t \<le> x (table ! 0) then Fin (y (table ! 0))
      else if x (table ! (length table - 1)) \<le> t then Fin (y (table ! (length table - 1)))
      else (case interp_scan table t 0 of
              Some v \<Rightarrow> v
            | None \<Rightarrow> Fin (y (table ! (length table - 1)))))"

definition normalizeBins :: "real coordinate list \<Rightarrow> number coordinate list" where
  "normalizeBins bins =
     (let total = or_else (foldl (\<lambda>s r. s + Fin (y r)) (Fin 0) bins) (Fin 1)
      in map (\<lambda>r. \<lparr>x = x r, y = (Fin (y r) * Fin 100) / total\<rparr>) bins)"

section \<open>The calculation\<close>

record inputs =
  kwhBase :: string
  supplyC :: string
  txC :: string
  dfcNon :: string
  dfcEH :: string
  gasSupply :: string
  gasDist :: string
  afue :: string
  heatMMBtu :: string
  seasonalCOP :: string
  gross :: string
  credits :: string

text \<open>A row of the per-bin matrix and a point of the crossover series.\<close>

record matrix_row =
  m_t :: real
  m_pct :: number
  m_cop :: number
  m_hpCost :: number
  m_gasCost :: number
  m_cheaper :: string

record series_point =
  s_t :: real
  s_hp :: number
  s_gas :: number

subsection \<open>The loop over the bins\<close>

text \<open>The variables that the loop over the bins updates.\<close>

record bin_state =
  b_hpKWh :: number
  b_costHPsum :: number
  b_costGASsum :: number
  b_hybridGasMMBtu :: number
  b_matrix :: "matrix_row list"

definition bin_step ::
  "real coordinate list \<Rightarrow> number \<Rightarrow> number \<Rightarrow> number \<Rightarrow> bin_state \<Rightarrow> number coordinate \<Rightarrow> bin_state" where
  "bin_step table heat allInEH costGasPerMMBtu st b =
     (let t = x b;
          share = y b / Fin 100;
          mmbtu = heat * share;
          cop = interpCOP table t;
          kwhPerMMBtu = Fin 293.071 / cop;
          costHPperMMBtu = kwhPerMMBtu * allInEH;
          hp = (costHPperMMBtu \<le> costGasPerMMBtu)
      in \<lparr>b_hpKWh = b_hpKWh st + mmbtu * kwhPerMMBtu,
          b_costHPsum = (if hp then b_costHPsum st + mmbtu * costHPperMMBtu else b_costHPsum st),
          b_costGASsum = (if hp then b_costGASsum st else b_costGASsum st + mmbtu * costGasPerMMBtu),
          b_hybridGasMMBtu = (if hp then b_hybridGasMMBtu st else b_hybridGasMMBtu st + mmbtu),
          b_matrix = b_matrix st @
            [\<lparr>m_t = t, m_pct = toFixed 2 (y b), m_cop = toFixed 2 cop,
              m_hpCost = toFixed 2 costHPperMMBtu, m_gasCost = toFixed 2 costGasPerMMBtu,
              m_cheaper = (if hp then ''HP'' else ''Gas'')\<rparr>]\<rparr>)"

definition bins_loop ::
  "real coordinate list \<Rightarrow> number \<Rightarrow> number \<Rightarrow> number \<Rightarrow> number coordinate list \<Rightarrow> bin_state" where
  "bins_loop table heat allInEH costGasPerMMBtu bins =
     foldl (bin_step table heat allInEH costGasPerMMBtu)
       \<lparr>b_hpKWh = Fin 0, b_costHPsum = Fin 0, b_costGASsum = Fin 0,
        b_hybridGasMMBtu = Fin 0, b_matrix = []\<rparr> bins"

subsection \<open>The crossover scan\<close>

text \<open>
  The loop \<^verbatim>\<open>for (let t = tMin; t <= tMax; t++)\<close> with its \<^verbatim>\<open>break\<close>: the result is
  \<^verbatim>\<open>crossoverTemp\<close> and \<^verbatim>\<open>crossoverSeries\<close> as the loop leaves them. Over the reals
  every step advances \<open>t\<close> by one, which is the measure of the termination proof. In the
  program \<^verbatim>\<open>t++\<close> rounds to a double, and from \<open>2^53\<close> on it leaves \<open>t\<close> as it is: on a
  table whose temperatures reach that far the loop of the program does not end, and long
  before that its series exhausts the memory. The function is the loop of the program for
  tables whose temperatures lie within a few million degrees of zero.
\<close>

function crossover_scan ::
  "(real \<Rightarrow> number) \<Rightarrow> number \<Rightarrow> real \<Rightarrow> real \<Rightarrow> real \<Rightarrow> number \<Rightarrow> series_point list
     \<Rightarrow> number option \<times> series_point list" where
  "crossover_scan hpCost costGasPerMMBtu tMax t prevT prevDiff series =
     (if t \<le> tMax
      then (if (prevDiff \<le> Fin 0 \<and> Fin 0 \<le> hpCost t - costGasPerMMBtu)
               \<or> (Fin 0 \<le> prevDiff \<and> hpCost t - costGasPerMMBtu \<le> Fin 0)
            then (Some (toFixed 1
                    (Fin prevT
                     + (if Math_abs (hpCost t - costGasPerMMBtu - prevDiff) < Fin (1 / 10 ^ 9)
                        then Fin 0
                        else (Fin 0 - prevDiff) / (hpCost t - costGasPerMMBtu - prevDiff))
                       * (Fin t - Fin prevT))),
                  series @ [\<lparr>s_t = t, s_hp = hpCost t, s_gas = costGasPerMMBtu\<rparr>])
            else crossover_scan hpCost costGasPerMMBtu tMax (t + 1) t
                   (hpCost t - costGasPerMMBtu)
                   (series @ [\<lparr>s_t = t, s_hp = hpCost t, s_gas = costGasPerMMBtu\<rparr>]))
      else (None, series))"
  by pat_completeness auto
termination
  by (relation "measure (\<lambda>(hpCost, g, tMax, t, prevT, prevDiff, series). nat (\<lfloor>tMax - t\<rfloor> + 1))")
     (auto simp: diff_diff_eq [symmetric])

declare crossover_scan.simps [simp del]

text \<open>The block that computes \<^verbatim>\<open>crossoverTemp\<close>, \<^verbatim>\<open>crossoverNote\<close> and
  \<^verbatim>\<open>crossoverSeries\<close>.\<close>

definition crossover ::
  "bool \<Rightarrow> string \<Rightarrow> number \<Rightarrow> number \<Rightarrow> number option \<times> string \<times> series_point list" where
  "crossover useCopTable copText allInEH costGasPerMMBtu =
     (if useCopTable
      then
        (let table = parsePairs copText
         in if 1 < length table
            then
              (let tMin = min (- 20) (x (table ! 0));
                   tMax = max 65 (x (table ! (length table - 1)));
                   hpCost = (\<lambda>t. (Fin 293.071 / interpCOP table t) * allInEH);
                   (crossoverTemp, crossoverSeries) =
                      crossover_scan hpCost costGasPerMMBtu tMax tMin tMin
                        (hpCost tMin - costGasPerMMBtu) [];
                   diffAtMin = hpCost tMin - costGasPerMMBtu;
                   diffAtMax = hpCost tMax - costGasPerMMBtu
               in (crossoverTemp,
                   (if crossoverTemp = None
                    then (if diffAtMin < Fin 0 \<and> diffAtMax < Fin 0 then ''HP cheaper at all temps''
                          else if Fin 0 < diffAtMin \<and> Fin 0 < diffAtMax then ''Gas cheaper at all temps''
                          else ''Crossover outside modeled range'')
                    else ''''),
                   crossoverSeries))
            else (None, '''', []))
      else (None, ''Provide a COP table to compute a precise crossover temperature'', []))"

subsection \<open>\<^verbatim>\<open>calc\<close>\<close>

text \<open>The local variables of \<^verbatim>\<open>calc\<close> that its return statement reads, as they are
  when it is reached.\<close>

record vars =
  v_heatMMBtu :: number
  v_afue :: number
  v_gasAllIn :: number
  v_allInEH :: number
  v_baseline :: number
  v_hpKWh :: number
  v_hybrid :: "number option"
  v_hybridGasMMBtu :: number
  v_hybridHPkWh :: number
  v_matrix :: "matrix_row list"
  v_allElectric :: number
  v_savingsAll :: number
  v_savingsHybrid :: "number option"
  v_paybackAll :: "number option"
  v_paybackHybrid :: "number option"
  v_dfcSavings :: number
  v_crossoverTemp :: "number option"
  v_crossoverNote :: string
  v_crossoverSeries :: "series_point list"
  v_chart :: "(string \<times> number) list"

definition calc_vars :: "inputs \<Rightarrow> bool \<Rightarrow> string \<Rightarrow> string \<Rightarrow> vars" where
  "calc_vars inp useCopTable copText binsText =
     (let kWhBase = toNumber (kwhBase inp) (Fin 97300);
          supplyC = toNumber (supplyC inp) (Fin 3.331);
          txC = toNumber (txC inp) (Fin 1.767);
          dfcNon = toNumber (dfcNon inp) (Fin 6.062);
          dfcEH = toNumber (dfcEH inp) (Fin 2.924);
          gasSupply = toNumber (gasSupply inp) (Fin 0.52);
          gasDist = toNumber (gasDist inp) (Fin 0.2134);
          afue = toNumber (afue inp) (Fin 0.95);
          heatMMBtu = toNumber (heatMMBtu inp) (Fin 37.5);
          seasonalCOP = toNumber (seasonalCOP inp) (Fin 2.2);
          gross = toNumber (gross inp) (Fin 10354);
          credits = toNumber (credits inp) (Fin 2600);
          gasAllIn = gasSupply + gasDist;
          allInNon = (supplyC + txC + dfcNon) / Fin 100;
          allInEH = (supplyC + txC + dfcEH) / Fin 100;
          baselineElec = kWhBase * allInNon;
          baselineGas = (heatMMBtu / Fin 0.1 / afue) * gasAllIn;
          baseline = baselineElec + baselineGas;
          loop = (if useCopTable
                  then Some (bins_loop (parsePairs copText) heatMMBtu allInEH
                               ((Fin 1 / Fin 0.1 / afue) * gasAllIn)
                               (normalizeBins (parsePairs binsText)))
                  else None);
          hpKWh = (case loop of
                     None \<Rightarrow> (heatMMBtu * Fin 293.071) / seasonalCOP
                   | Some st \<Rightarrow> b_hpKWh st);
          hybrid = (case loop of
                      None \<Rightarrow> None
                    | Some st \<Rightarrow> Some (kWhBase * allInEH + b_costHPsum st + b_costGASsum st));
          hybridGasMMBtu = (case loop of None \<Rightarrow> Fin 0 | Some st \<Rightarrow> b_hybridGasMMBtu st);
          hybridHPkWh = Fin 0;
          matrix = (case loop of None \<Rightarrow> [] | Some st \<Rightarrow> b_matrix st);
          allElectric = (kWhBase + hpKWh) * allInEH;
          savingsAll = baseline - allElectric;
          savingsHybrid = (case hybrid of None \<Rightarrow> None | Some h \<Rightarrow> Some (baseline - h));
          net = gross - credits;
          paybackAll = (if Fin 0 < savingsAll then Some (net / savingsAll) else None);
          paybackHybrid = (case savingsHybrid of
                             None \<Rightarrow> None
                           | Some s \<Rightarrow> if truthy s \<and> Fin 0 < s then Some (net / s) else None);
          dfcSavings = kWhBase * ((dfcNon - dfcEH) / Fin 100);
          costGasPerMMBtu = (Fin 1 / Fin 0.1 / afue) * gasAllIn;
          (crossoverTemp, crossoverNote, crossoverSeries) =
             crossover useCopTable copText allInEH costGasPerMMBtu;
          chart = [(''Baseline (Gas+AC)'', Math_round baseline),
                   (''All-Electric HP'', Math_round allElectric)]
                  @ (case hybrid of None \<Rightarrow> [] | Some h \<Rightarrow> [(''Hybrid (cheapest)'', Math_round h)])
      in \<lparr>v_heatMMBtu = heatMMBtu, v_afue = afue, v_gasAllIn = gasAllIn, v_allInEH = allInEH,
          v_baseline = baseline, v_hpKWh = hpKWh, v_hybrid = hybrid,
          v_hybridGasMMBtu = hybridGasMMBtu, v_hybridHPkWh = hybridHPkWh, v_matrix = matrix,
          v_allElectric = allElectric, v_savingsAll = savingsAll, v_savingsHybrid = savingsHybrid,
          v_paybackAll = paybackAll, v_paybackHybrid = paybackHybrid, v_dfcSavings = dfcSavings,
          v_crossoverTemp = crossoverTemp, v_crossoverNote = crossoverNote,
          v_crossoverSeries = crossoverSeries, v_chart = chart\<rparr>)"

text \<open>The record that \<^verbatim>\<open>calc\<close> returns.\<close>

record result =
  baseline :: number
  allElectric :: number
  hybrid :: "number option"
  hybridGasMMBtu :: number
  hybridHPkWh :: number
  savingsAll :: number
  savingsHybrid :: "number option"
  paybackAll :: "number option"
  paybackHybrid :: "number option"
  dfcSavings :: number
  gasHeatCost :: number
  hpHeatCost :: number
  fuelSwitchSavings :: number
  chart :: "(string \<times> number) list"
  crossoverTemp :: "number option"
  crossoverNote :: string
  crossoverSeries :: "series_point list"
  matrix :: "matrix_row list"

text \<open>\<^verbatim>\<open>p ? Number(p.toFixed(1)) : null\<close> on a nullable number: null, zero and NaN all
  give null.\<close>

definition payback_field :: "number option \<Rightarrow> number option" where
  "payback_field p =
     (case p of None \<Rightarrow> None | Some v \<Rightarrow> if truthy v then Some (toFixed 1 v) else None)"

definition return_of :: "vars \<Rightarrow> result" where
  "return_of v =
     \<lparr>baseline = Math_round (v_baseline v),
      allElectric = Math_round (v_allElectric v),
      hybrid = map_option Math_round (v_hybrid v),
      hybridGasMMBtu = toFixed 1 (v_hybridGasMMBtu v),
      hybridHPkWh = Math_round (v_hybridHPkWh v),
      savingsAll = Math_round (v_savingsAll v),
      savingsHybrid = map_option Math_round (v_savingsHybrid v),
      paybackAll = payback_field (v_paybackAll v),
      paybackHybrid = payback_field (v_paybackHybrid v),
      dfcSavings = Math_round (v_dfcSavings v),
      gasHeatCost = Math_round ((v_heatMMBtu v / Fin 0.1 / v_afue v) * v_gasAllIn v),
      hpHeatCost = Math_round (v_hpKWh v * v_allInEH v),
      fuelSwitchSavings =
        Math_round (((v_heatMMBtu v / Fin 0.1 / v_afue v) * v_gasAllIn v) - (v_hpKWh v * v_allInEH v)),
      chart = v_chart v,
      crossoverTemp = v_crossoverTemp v,
      crossoverNote = v_crossoverNote v,
      crossoverSeries = v_crossoverSeries v,
      matrix = v_matrix v\<rparr>"

definition calc :: "inputs \<Rightarrow> bool \<Rightarrow> string \<Rightarrow> string \<Rightarrow> result" where
  "calc inp useCopTable copText binsText = return_of (calc_vars inp useCopTable copText binsText)"

text \<open>The initial form: every field holds the text of its default.\<close>

definition DEFAULTS :: inputs where
  "DEFAULTS =
     \<lparr>kwhBase = ''97300'', supplyC = ''3.331'', txC = ''1.767'', dfcNon = ''6.062'',
      dfcEH = ''2.924'', gasSupply = ''0.52'', gasDist = ''0.2134'', afue = ''0.95'',
      heatMMBtu = ''37.5'', seasonalCOP = ''2.2'', gross = ''10354'', credits = ''2600''\<rparr>"

definition DEFAULT_COP :: string where
  "DEFAULT_COP = concat (map (\<lambda>l. l @ [CHR 0x0A])
     [''60:3.77'', ''55:3.56'', ''50:3.39'', ''45:3.24'', ''40:3.12'', ''35:2.75'', ''30:2.62'',
      ''25:2.50'', ''20:2.37'', ''15:2.24'', ''10:2.11'', ''5:2.00'', ''0:1.87'', ''-5:1.74''])
     @ ''-10:1.65''"

definition DEFAULT_BINS :: string where
  "DEFAULT_BINS = concat (map (\<lambda>l. l @ [CHR 0x0A])
     [''60:0'', ''55:2'', ''50:4'', ''45:6'', ''40:8'', ''35:11'', ''30:13'', ''25:14'',
      ''20:13'', ''15:10'', ''10:8'', ''5:6'', ''0:3'', ''-5:1.5''])
     @ ''-10:0.5''"

section \<open>Notions of the specification\<close>


definition linear_interp :: "real coordinate \<Rightarrow> real coordinate \<Rightarrow> real \<Rightarrow> real" where
  "linear_interp a b t =
     y a + (t - x a) / (if x b - x a = 0 then 1 else x b - x a) * (y b - y a)"

text \<open>The entries of a text, and the two sides of an entry: the text before the first colon,
  and the text between the first colon and the second one (or the end), if there is a
  colon at all.\<close>

definition entries :: "string \<Rightarrow> string list" where
  "entries text =
     filter (\<lambda>s. s \<noteq> []) (map trim (split (\<lambda>c. c = CHR 0x0A \<or> c = CHR '','') text))"

definition x_text :: "string \<Rightarrow> string" where
  "x_text e = takeWhile (\<lambda>c. c \<noteq> CHR '':'') e"

definition y_text :: "string \<Rightarrow> string option" where
  "y_text e =
     (case dropWhile (\<lambda>c. c \<noteq> CHR '':'') e of
        [] \<Rightarrow> None
      | c # rest \<Rightarrow> Some (takeWhile (\<lambda>c. c \<noteq> CHR '':'') rest))"

definition entry_pair :: "string \<Rightarrow> number \<times> number" where
  "entry_pair e = (Number_js (trim (x_text e)), Number_of (map_option trim (y_text e)))"

text \<open>The numeric inputs after \<^verbatim>\<open>toNumber\<close>, which always yields a finite number: the
  specification's RateInputs.\<close>

definition real_of :: "number \<Rightarrow> real" where
  "real_of n = (case n of Fin r \<Rightarrow> r | _ \<Rightarrow> 0)"

record rates =
  r_kWhBase :: real
  r_supplyC :: real
  r_txC :: real
  r_dfcNon :: real
  r_dfcEH :: real
  r_gasSupply :: real
  r_gasDist :: real
  r_afue :: real
  r_heatMMBtu :: real
  r_seasonalCOP :: real
  r_gross :: real
  r_credits :: real

definition rateInputs :: "inputs \<Rightarrow> rates" where
  "rateInputs inp =
     \<lparr>r_kWhBase = real_of (toNumber (kwhBase inp) (Fin 97300)),
      r_supplyC = real_of (toNumber (supplyC inp) (Fin 3.331)),
      r_txC = real_of (toNumber (txC inp) (Fin 1.767)),
      r_dfcNon = real_of (toNumber (dfcNon inp) (Fin 6.062)),
      r_dfcEH = real_of (toNumber (dfcEH inp) (Fin 2.924)),
      r_gasSupply = real_of (toNumber (gasSupply inp) (Fin 0.52)),
      r_gasDist = real_of (toNumber (gasDist inp) (Fin 0.2134)),
      r_afue = real_of (toNumber (afue inp) (Fin 0.95)),
      r_heatMMBtu = real_of (toNumber (heatMMBtu inp) (Fin 37.5)),
      r_seasonalCOP = real_of (toNumber (seasonalCOP inp) (Fin 2.2)),
      r_gross = real_of (toNumber (gross inp) (Fin 10354)),
      r_credits = real_of (toNumber (credits inp) (Fin 2600))\<rparr>"

text \<open>The cost of the installation net of the credits.\<close>

definition net_cost :: "inputs \<Rightarrow> number" where
  "net_cost inp = toNumber (gross inp) (Fin 10354) - toNumber (credits inp) (Fin 2600)"

text \<open>The parsed form of the default COP table.\<close>

definition default_table :: "real coordinate list" where
  "default_table =
     [\<lparr>x = - 10, y = 1.65\<rparr>, \<lparr>x = - 5, y = 1.74\<rparr>, \<lparr>x = 0, y = 1.87\<rparr>, \<lparr>x = 5, y = 2\<rparr>,
      \<lparr>x = 10, y = 2.11\<rparr>, \<lparr>x = 15, y = 2.24\<rparr>, \<lparr>x = 20, y = 2.37\<rparr>, \<lparr>x = 25, y = 2.5\<rparr>,
      \<lparr>x = 30, y = 2.62\<rparr>, \<lparr>x = 35, y = 2.75\<rparr>, \<lparr>x = 40, y = 3.12\<rparr>, \<lparr>x = 45, y = 3.24\<rparr>,
      \<lparr>x = 50, y = 3.39\<rparr>, \<lparr>x = 55, y = 3.56\<rparr>, \<lparr>x = 60, y = 3.77\<rparr>]"

text \<open>The interpolated COP as a real, the heat of a bin (its normalised share of the annual
  load) and the cost of a unit of heat from the heat pump at a bin's temperature.\<close>

definition cop_at :: "real coordinate list \<Rightarrow> real \<Rightarrow> real" where
  "cop_at table t = real_of (interpCOP table t)"

definition bin_heat :: "real \<Rightarrow> real coordinate list \<Rightarrow> real coordinate \<Rightarrow> real" where
  "bin_heat heat bins r =
     heat * (y r * 100 / (if sum_list (map y bins) = 0 then 1 else sum_list (map y bins)) / 100)"

definition hp_unit_cost :: "real coordinate list \<Rightarrow> real \<Rightarrow> real coordinate \<Rightarrow> real" where
  "hp_unit_cost table e r = 293.071 / cop_at table (x r) * e"

text \<open>The cost of a unit of heat from gas and the two electricity rates, on the parsed inputs.\<close>

definition gas_unit_cost :: "rates \<Rightarrow> real" where
  "gas_unit_cost ra = 1 / 0.1 / r_afue ra * (r_gasSupply ra + r_gasDist ra)"

definition rate_EH :: "rates \<Rightarrow> real" where
  "rate_EH ra = (r_supplyC ra + r_txC ra + r_dfcEH ra) / 100"

definition rate_Non :: "rates \<Rightarrow> real" where
  "rate_Non ra = (r_supplyC ra + r_txC ra + r_dfcNon ra) / 100"

text \<open>The divisor of the normaliser: the sum of the weights, or 1 when that sum is zero.\<close>

definition bins_divisor :: "real coordinate list \<Rightarrow> number" where
  "bins_divisor bins = or_else (foldl (\<lambda>s r. s + Fin (y r)) (Fin 0) bins) (Fin 1)"

text \<open>
  Ranges of the inputs. The finite numbers of the model are exact, those of the program are
  doubles: every operation rounds, a result near \<open>1.8 * 10^308\<close> or beyond overflows to an
  infinity, the difference of two close values can round to zero, and from \<open>2^53\<close> on adding
  1 to a double no longer changes it, so that the crossover scan of the program does not
  end on a table that reaches that far. The statements below that depend on the values of
  the arithmetic are therefore made for inputs in the following ranges, in which every
  intermediate value of the program stays far inside the doubles, no divisor rounds to
  zero, and the program differs from the model by rounding only: weights between 0 and
  \<open>10^50\<close>; table temperatures within \<open>10^6\<close> of zero, which bounds the crossover scan by a
  few million steps; table COPs between \<open>10^-3\<close> and \<open>10^3\<close>; rates and loads of a magnitude
  of at most \<open>10^50\<close>, and an AFUE, which is a divisor, of a magnitude of at least \<open>10^-50\<close>.
\<close>

definition weights_in_range :: "real coordinate list \<Rightarrow> bool" where
  "weights_in_range bins = list_all (\<lambda>r. 0 \<le> y r \<and> y r \<le> 10 ^ 50) bins"

definition grid_in_range :: "real coordinate list \<Rightarrow> bool" where
  "grid_in_range table = list_all (\<lambda>p. \<bar>x p\<bar> \<le> 10 ^ 6) table"

definition table_in_range :: "real coordinate list \<Rightarrow> bool" where
  "table_in_range table =
     (grid_in_range table \<and> list_all (\<lambda>p. 1 / 10 ^ 3 \<le> y p \<and> y p \<le> 10 ^ 3) table)"

definition rates_in_range :: "rates \<Rightarrow> bool" where
  "rates_in_range ra =
     (list_all (\<lambda>v. \<bar>v\<bar> \<le> 10 ^ 50)
        [r_kWhBase ra, r_supplyC ra, r_txC ra, r_dfcNon ra, r_dfcEH ra,
         r_gasSupply ra, r_gasDist ra, r_afue ra, r_heatMMBtu ra]
      \<and> 1 / 10 ^ 50 \<le> \<bar>r_afue ra\<bar>)"

text \<open>The sum of the weights that the normaliser returns.\<close>

definition weight_sum :: "number coordinate list \<Rightarrow> real" where
  "weight_sum bins = (\<Sum>r\<leftarrow>bins. real_of (y r))"

section \<open>Arithmetic on finite numbers\<close>

lemma Fin_minus [simp]: "Fin a - Fin b = Fin (a - b)"
  by (simp add: minus_number_def)

lemma Fin_divide [simp]: "b \<noteq> 0 \<Longrightarrow> Fin a / Fin b = Fin (a / b)"
  by simp

lemma or_else_Fin [simp]: "or_else (Fin a) (Fin b) = Fin (if a = 0 then b else a)"
  by (simp add: or_else_def)

section \<open>Numerals beyond the doubles\<close>

lemma double_bounds:
  "overflow_bound = 2 ^ 1024 - 2 ^ 970"
  "underflow_bound = 1 / 2 ^ 1075"
  by (simp_all add: overflow_bound_def underflow_bound_def)

text \<open>A numeral too large for a double is read as an infinity, so that \<^verbatim>\<open>toNumber\<close> takes
  the fallback and the pair parser drops the entry; one too small is read as zero.\<close>

lemma unsigned_decimal_beyond:
  "unsigned_decimal ''1e400'' = PosInfinity"
  "unsigned_decimal ''1e-400'' = Fin 0"
  by (simp_all add: unsigned_decimal_def is_exponent_indicator_def digits_in_def hex_value_def
        signed_integer_def digits_value_def scale10_def RoundMVResult_def overflow_bound_def
        underflow_bound_def)

lemma toNumber_beyond: "toNumber ''1e400'' fallback = fallback"
  by (simp add: toNumber_def Number_js_def trim_def is_space_def non_decimal_def
        unsigned_decimal_beyond)

section \<open>The pair parser\<close>

lemma split_not_Nil: "split sep s \<noteq> []"
  by (induction s) (auto split: list.splits)

lemma split_Cons:
  "split sep (c # cs) = (if sep c then [] # split sep cs
                         else (c # hd (split sep cs)) # tl (split sep cs))"
  using split_not_Nil [of sep cs] by (cases "split sep cs") simp_all

lemma hd_split: "hd (split sep s) = takeWhile (\<lambda>c. \<not> sep c) s"
  by (induction s) (simp_all add: split_Cons del: split.simps(2))

lemma tl_split:
  "tl (split sep s) = (case dropWhile (\<lambda>c. \<not> sep c) s of [] \<Rightarrow> [] | c # rest \<Rightarrow> split sep rest)"
  by (induction s) (simp_all add: split_Cons del: split.simps(2))

lemma element_0: "xs \<noteq> [] \<Longrightarrow> element xs 0 = Some (hd xs)"
  by (cases xs) (simp_all add: element_def)

lemma element_1: "xs \<noteq> [] \<Longrightarrow> element xs 1 = (case tl xs of [] \<Rightarrow> None | z # zs \<Rightarrow> Some z)"
  by (cases xs) (auto simp: element_def split: list.splits)

lemma split_eq_Cons: "split sep s = z # zs \<Longrightarrow> z = takeWhile (\<lambda>c. \<not> sep c) s"
  using hd_split [of sep s] by simp

lemma second_field:
  "(case tl (split sep s) of [] \<Rightarrow> None | z # zs \<Rightarrow> Some (f z))
   = (case dropWhile (\<lambda>c. \<not> sep c) s of
        [] \<Rightarrow> None
      | c # rest \<Rightarrow> Some (f (takeWhile (\<lambda>c. \<not> sep c) rest)))"
proof (cases "dropWhile (\<lambda>c. \<not> sep c) s")
  case Nil
  show ?thesis
    by (simp only: tl_split Nil list.case)
next
  case (Cons c rest)
  obtain z zs where sp: "split sep rest = z # zs"
    using split_not_Nil [of sep rest] by (cases "split sep rest") auto
  have z: "z = takeWhile (\<lambda>c. \<not> sep c) rest"
    using sp by (rule split_eq_Cons)
  show ?thesis
    by (simp only: tl_split Cons list.case sp z)
qed

lemma case_tl_map:
  "(case tl (map f xs) of [] \<Rightarrow> None | z # zs \<Rightarrow> Some z)
   = (case tl xs of [] \<Rightarrow> None | z # zs \<Rightarrow> Some (f z))"
  by (cases xs; cases "tl xs") simp_all

lemma pair_of_entry_pair: "pair_of e = entry_pair e"
proof -
  let ?sep = "\<lambda>c. c = CHR '':''"
  let ?fs = "map trim (split ?sep e)"
  have ne: "?fs \<noteq> []" by (simp add: split_not_Nil)
  have a: "element ?fs 0 = Some (trim (x_text e))"
    using split_not_Nil [of ?sep e] by (simp add: element_0 [OF ne] hd_map hd_split x_text_def)
  have "element ?fs 1 = (case tl (split ?sep e) of [] \<Rightarrow> None | z # zs \<Rightarrow> Some (trim z))"
    unfolding element_1 [OF ne] by (rule case_tl_map)
  also have "\<dots> = map_option trim (y_text e)"
    unfolding second_field y_text_def
    by (cases "dropWhile (\<lambda>c. c \<noteq> CHR '':'') e") (simp_all only: list.case option.map)
  finally have b: "element ?fs 1 = map_option trim (y_text e)" .
  show ?thesis
    by (simp only: pair_of_def entry_pair_def Let_def a b Number_of_def option.case)
qed

lemma length_map_filter_le: "length (List.map_filter f xs) \<le> length xs"
  by (induction xs) (auto simp: map_filter_simps split: option.splits)

lemma set_map_filter_conv: "set (List.map_filter f xs) = {c. \<exists>p \<in> set xs. f p = Some c}"
  by (induction xs) (auto simp: map_filter_simps split: option.splits)

lemma finite_pair_Some: "finite_pair p = Some c \<longleftrightarrow> p = (Fin (x c), Fin (y c))"
  by (cases p rule: finite_pair.cases; cases c) auto

text \<open>
  C4, as stated, fails: an entry with a second colon is not discarded, its third field is
  ignored.
\<close>

theorem parsePairs_second_colon_counterexample:
  "parsePairs ''1:2:3'' = [\<lparr>x = 1, y = 2\<rparr>]"
  by code_simp

text \<open>
  C4, amended. The parser splits the text on newlines and commas, trims the pieces and
  drops the empty ones; of each entry it takes the text before the first colon as x and
  the text between the first colon and the second one (or the end) as y, ignoring what
  follows a second colon; both are trimmed and read by \<^verbatim>\<open>Number\<close>, a missing y being NaN;
  the entries with a finite x and a finite y are kept and returned sorted ascending by x.
  The function is total: malformed text yields fewer coordinates, at most one per entry.
\<close>

theorem parsePairs_spec:
  "parsePairs text = sort_key x (List.map_filter finite_pair (map entry_pair (entries text)))
   \<and> sorted (map x (parsePairs text))
   \<and> (\<forall>c. c \<in> set (parsePairs text)
          \<longleftrightarrow> (\<exists>e \<in> set (entries text). entry_pair e = (Fin (x c), Fin (y c))))
   \<and> length (parsePairs text) \<le> length (entries text)"
proof -
  have eq: "parsePairs text = sort_key x (List.map_filter finite_pair (map entry_pair (entries text)))"
    by (simp add: parsePairs_def entries_def pair_of_entry_pair cong: map_cong)
  have mem: "c \<in> set (parsePairs text)
          \<longleftrightarrow> (\<exists>e \<in> set (entries text). entry_pair e = (Fin (x c), Fin (y c)))" for c
    unfolding eq set_sort set_map_filter_conv by (force simp: finite_pair_Some image_iff)
  have len: "length (parsePairs text) \<le> length (entries text)"
    unfolding eq using length_map_filter_le [of finite_pair "map entry_pair (entries text)"]
    by simp
  have srt: "sorted (map x (parsePairs text))"
    unfolding eq by (rule sorted_sort_key)
  show ?thesis
    using eq mem len srt by blast
qed

theorem parsePairs_spec_witness:
  "sorted (map x (parsePairs ''10:2, x:1, 5:3''))
   \<and> parsePairs ''10:2, x:1, 5:3'' = [\<lparr>x = 5, y = 3\<rparr>, \<lparr>x = 10, y = 2\<rparr>]"
proof -
  have "parsePairs ''10:2, x:1, 5:3'' = [\<lparr>x = 5, y = 3\<rparr>, \<lparr>x = 10, y = 2\<rparr>]"
    by code_simp
  then show ?thesis
    using parsePairs_spec [of "''10:2, x:1, 5:3''"] by simp
qed

section \<open>The interpolator\<close>

lemma interp_formula:
  "Fin (y a) + (Fin t - Fin (x a)) / or_else (Fin (x b) - Fin (x a)) (Fin 1) * (Fin (y b) - Fin (y a))
   = Fin (linear_interp a b t)"
  by (simp add: linear_interp_def)

text \<open>The scan from index \<open>i\<close> finds the first bracketing pair among the pairs from \<open>i\<close> on.\<close>

lemma interp_scan_find:
  "interp_scan table t i =
     map_option (\<lambda>(a, b). Fin (linear_interp a b t))
       (find (\<lambda>(a, b). x a \<le> t \<and> t \<le> x b) (drop i (zip table (tl table))))"
proof (induction table t i rule: interp_scan.induct)
  case (1 table t i)
  show ?case
  proof (cases "i < length table - 1")
    case False
    then show ?thesis by (subst interp_scan.simps) simp
  next
    case True
    then have len: "i < length (zip table (tl table))" by simp
    have nth: "zip table (tl table) ! i = (table ! i, table ! (i + 1))"
      using True by (simp add: nth_tl)
    have dr: "drop i (zip table (tl table))
              = (table ! i, table ! (i + 1)) # drop (i + 1) (zip table (tl table))"
      using Cons_nth_drop_Suc [OF len] nth by simp
    have unfold: "interp_scan table t i =
        (if x (table ! i) \<le> t \<and> t \<le> x (table ! (i + 1))
         then Some (Fin (linear_interp (table ! i) (table ! (i + 1)) t))
         else interp_scan table t (i + 1))"
      by (subst interp_scan.simps) (simp only: True if_True interp_formula)
    show ?thesis
    proof (cases "x (table ! i) \<le> t \<and> t \<le> x (table ! (i + 1))")
      case hit: True
      show ?thesis
        by (simp only: unfold dr find.simps prod.case hit simp_thms if_True option.map)
    next
      case miss: False
      show ?thesis
        by (simp only: unfold dr find.simps prod.case miss simp_thms if_False
              "1.IH" [OF True miss])
    qed
  qed
qed




text \<open>
  C10. On a table of exactly one entry the interpolator returns that entry's y at every
  query temperature.
\<close>

theorem interpCOP_single: "interpCOP [p] t = Fin (y p)"
  by (simp add: interpCOP_def)

lemma interpCOP_Fin: "interpCOP table t = Fin (cop_at table t)"
  by (auto simp: cop_at_def real_of_def interpCOP_def interp_scan_find split: option.splits)

text \<open>Between positive samples the interpolated COP is positive.\<close>

lemma linear_interp_pos:
  assumes "0 < y a" and "0 < y b" and "x a \<le> t" and "t \<le> x b"
  shows "0 < linear_interp a b t"
proof (cases "x b - x a = 0")
  case True
  with assms have "t = x a" by simp
  with True assms show ?thesis by (simp add: linear_interp_def)
next
  case False
  define f where "f = (t - x a) / (x b - x a)"
  from False assms have d: "0 < x b - x a" by simp
  then have f0: "0 \<le> f" and f1: "f \<le> 1"
    using assms by (simp_all add: f_def)
  have "linear_interp a b t = y a + f * (y b - y a)"
    using False by (simp add: linear_interp_def f_def)
  also have "\<dots> = (1 - f) * y a + f * y b"
    by (simp add: algebra_simps)
  finally have "linear_interp a b t = (1 - f) * y a + f * y b" .
  moreover have "0 < (1 - f) * y a + f * y b"
  proof (cases "f = 0")
    case True
    with assms show ?thesis by simp
  next
    case False
    with f0 have "0 < f * y b" using assms by simp
    moreover have "0 \<le> (1 - f) * y a" using f1 assms by simp
    ultimately show ?thesis by simp
  qed
  ultimately show ?thesis by simp
qed

lemma find_Some_mem: "find P xs = Some z \<Longrightarrow> z \<in> set xs \<and> P z"
  by (induction xs) (auto split: if_splits)

lemma cop_at_pos:
  assumes "\<forall>p \<in> set table. 0 < y p"
  shows "0 < cop_at table t"
proof (cases "interp_scan table t 0")
  case None
  then show ?thesis
    using assms by (auto simp: cop_at_def real_of_def interpCOP_def)
next
  case (Some v)
  then obtain a b where f: "find (\<lambda>(a, b). x a \<le> t \<and> t \<le> x b) (zip table (tl table)) = Some (a, b)"
    and v: "v = Fin (linear_interp a b t)"
    by (auto simp: interp_scan_find)
  from find_Some_mem [OF f] have br: "x a \<le> t" "t \<le> x b"
    and mem: "(a, b) \<in> set (zip table (tl table))"
    by simp_all
  from mem have "a \<in> set table" "b \<in> set (tl table)"
    by (auto dest: set_zip_leftD set_zip_rightD)
  then have "0 < y a" "0 < y b"
    using assms by (auto dest: list.set_sel(2) [rotated])
  from linear_interp_pos [OF this br] have "0 < linear_interp a b t" .
  then show ?thesis
    using assms Some v by (auto simp: cop_at_def real_of_def interpCOP_def)
qed

section \<open>The normaliser\<close>

lemma foldl_Fin_sum:
  "foldl (\<lambda>s r. s + Fin (y r)) (Fin a) bins = Fin (a + sum_list (map y bins))"
  by (induction bins arbitrary: a) (simp_all add: add.assoc)

lemma normalizeBins_eq:
  "normalizeBins bins =
     map (\<lambda>r. \<lparr>x = x r,
               y = Fin (y r * 100 / (if sum_list (map y bins) = 0 then 1 else sum_list (map y bins)))\<rparr>)
       bins"
  by (simp add: normalizeBins_def foldl_Fin_sum)

lemma sum_list_scaled:
  fixes k :: real
  shows "(\<Sum>r\<leftarrow>bins. y r * k) = sum_list (map y bins) * k"
  by (induction bins) (simp_all add: algebra_simps)

lemma bins_divisor_eq:
  "bins_divisor bins = Fin (if sum_list (map y bins) = 0 then 1 else sum_list (map y bins))"
  by (simp add: bins_divisor_def foldl_Fin_sum)

lemma weight_le_sum:
  fixes w :: "'a \<Rightarrow> real"
  assumes "\<forall>r \<in> set bins. 0 \<le> w r" and "r \<in> set bins"
  shows "w r \<le> sum_list (map w bins)"
  using assms
proof (induction bins)
  case Nil
  then show ?case by simp
next
  case (Cons b bins)
  have nn: "0 \<le> sum_list (map w bins)"
    using Cons.prems(1) by (intro sum_list_nonneg) auto
  show ?case
  proof (cases "r = b")
    case True
    with nn show ?thesis by simp
  next
    case False
    with Cons have "w r \<le> sum_list (map w bins)" by simp
    moreover have "0 \<le> w b" using Cons.prems(1) by simp
    ultimately show ?thesis by simp
  qed
qed

lemma zero_sum_weights:
  fixes w :: "'a \<Rightarrow> real"
  assumes "\<forall>r \<in> set bins. 0 \<le> w r" and "sum_list (map w bins) = 0" and "r \<in> set bins"
  shows "w r = 0"
  using weight_le_sum [OF assms(1) assms(3)] assms by force

text \<open>
  C6, as stated, fails: a list whose y values sum to zero without all being zero is divided
  by 1, so its outputs are 100 times the inputs, not 0.
\<close>

theorem normalizeBins_zero_sum_counterexample:
  "sum_list (map y (parsePairs ''10:5, 20:-5'')) = 0
   \<and> map y (normalizeBins (parsePairs ''10:5, 20:-5'')) = [Fin 500, Fin (- 500)]"
  by code_simp

text \<open>
  C6, amended. The normaliser keeps every x and divides every weight, times 100, by one
  common divisor: the sum of the weights, or 1 when that sum is zero, so that the divisor is
  never zero or NaN. For weights that are not negative (and at most \<open>10^50\<close>): when they do
  not sum to zero, every output is \<open>y * (100 / sum)\<close>, a number between 0 and 100, and the
  outputs sum to 100, which for the doubles of the program means within floating tolerance;
  when they sum to zero, every output is 0.
\<close>

theorem normalizeBins_sum:
  "map x (normalizeBins bins) = map x bins
   \<and> truthy (bins_divisor bins)
   \<and> map y (normalizeBins bins) = map (\<lambda>r. (Fin (y r) * Fin 100) / bins_divisor bins) bins
   \<and> (weights_in_range bins \<and> sum_list (map y bins) \<noteq> 0 \<longrightarrow>
        map y (normalizeBins bins) = map (\<lambda>r. Fin (y r * (100 / sum_list (map y bins)))) bins
        \<and> (\<forall>r \<in> set bins. 0 \<le> y r * (100 / sum_list (map y bins))
                            \<and> y r * (100 / sum_list (map y bins)) \<le> 100)
        \<and> weight_sum (normalizeBins bins) = 100)
   \<and> (weights_in_range bins \<and> sum_list (map y bins) = 0 \<longrightarrow>
        map y (normalizeBins bins) = map (\<lambda>r. Fin 0) bins)"
proof -
  let ?S = "sum_list (map y bins)"
  have xs: "map x (normalizeBins bins) = map x bins"
    by (simp add: normalizeBins_def comp_def)
  have tr: "truthy (bins_divisor bins)"
    by (simp add: bins_divisor_eq)
  have ys: "map y (normalizeBins bins) = map (\<lambda>r. (Fin (y r) * Fin 100) / bins_divisor bins) bins"
    by (simp add: normalizeBins_def bins_divisor_def comp_def)
  have nz: "map y (normalizeBins bins) = map (\<lambda>r. Fin (y r * (100 / ?S))) bins
        \<and> (\<forall>r \<in> set bins. 0 \<le> y r * (100 / ?S) \<and> y r * (100 / ?S) \<le> 100)
        \<and> weight_sum (normalizeBins bins) = 100"
    if range: "weights_in_range bins" and S: "?S \<noteq> 0"
  proof -
    from range have nn: "\<forall>r \<in> set bins. 0 \<le> y r"
      by (simp add: weights_in_range_def list_all_iff)
    then have "0 \<le> ?S"
      by (intro sum_list_nonneg) auto
    with S have pos: "0 < ?S" by simp
    have m: "map y (normalizeBins bins) = map (\<lambda>r. Fin (y r * (100 / ?S))) bins"
      using S by (simp add: normalizeBins_eq comp_def)
    have b: "0 \<le> y r * (100 / ?S) \<and> y r * (100 / ?S) \<le> 100" if "r \<in> set bins" for r
    proof -
      have "y r \<le> ?S" using weight_le_sum [OF nn that] .
      moreover have "0 \<le> y r" using nn that by simp
      ultimately show ?thesis using pos by (simp add: field_simps)
    qed
    have "weight_sum (normalizeBins bins) = (\<Sum>r\<leftarrow>bins. y r * (100 / ?S))"
      using S by (simp add: weight_sum_def normalizeBins_eq comp_def real_of_def)
    also have "\<dots> = ?S * (100 / ?S)"
      by (rule sum_list_scaled)
    also have "\<dots> = 100"
      using S by simp
    finally show ?thesis
      using m b by blast
  qed
  have z: "map y (normalizeBins bins) = map (\<lambda>r. Fin 0) bins"
    if range: "weights_in_range bins" and S: "?S = 0"
  proof -
    from range have nn: "\<forall>r \<in> set bins. 0 \<le> y r"
      by (simp add: weights_in_range_def list_all_iff)
    have "y r = 0" if "r \<in> set bins" for r
      using zero_sum_weights [OF nn S that] .
    then show ?thesis
      using S by (simp add: normalizeBins_eq comp_def)
  qed
  from xs tr ys nz z show ?thesis
    by blast
qed

theorem normalizeBins_sum_witness:
  "weights_in_range [\<lparr>x = 0, y = 1\<rparr>, \<lparr>x = 10, y = 3\<rparr>]
   \<and> map y (normalizeBins [\<lparr>x = 0, y = 1\<rparr>, \<lparr>x = 10, y = 3\<rparr>]) = [Fin 25, Fin 75]
   \<and> weight_sum (normalizeBins [\<lparr>x = 0, y = 1\<rparr>, \<lparr>x = 10, y = 3\<rparr>]) = 100
   \<and> weights_in_range [\<lparr>x = 0, y = 0\<rparr>, \<lparr>x = 10, y = 0\<rparr>]
   \<and> map y (normalizeBins [\<lparr>x = 0, y = 0\<rparr>, \<lparr>x = 10, y = 0\<rparr>]) = [Fin 0, Fin 0]"
proof -
  let ?A = "[\<lparr>x = 0, y = 1\<rparr>, \<lparr>x = 10, y = 3\<rparr>] :: real coordinate list"
  let ?Z = "[\<lparr>x = 0, y = 0\<rparr>, \<lparr>x = 10, y = 0\<rparr>] :: real coordinate list"
  have ra: "weights_in_range ?A \<and> sum_list (map y ?A) \<noteq> 0"
    and rz: "weights_in_range ?Z \<and> sum_list (map y ?Z) = 0"
    by (simp_all add: weights_in_range_def)
  from normalizeBins_sum [of ?A] ra
  have a: "map y (normalizeBins ?A) = map (\<lambda>r. Fin (y r * (100 / sum_list (map y ?A)))) ?A
           \<and> weight_sum (normalizeBins ?A) = 100"
    by blast
  from normalizeBins_sum [of ?Z] rz
  have z: "map y (normalizeBins ?Z) = map (\<lambda>r. Fin 0) ?Z"
    by blast
  from a z ra rz show ?thesis
    by simp
qed

section \<open>The parsed inputs\<close>

lemma toNumber_finite: "\<exists>r. toNumber v (Fin d) = Fin r"
  by (cases "Number_js v") (simp_all add: toNumber_def)

lemma toNumber_real_of: "toNumber v (Fin d) = Fin (real_of (toNumber v (Fin d)))"
  using toNumber_finite [of v d] by (auto simp: real_of_def)

lemma toNumber_rates:
  "toNumber (kwhBase inp) (Fin 97300) = Fin (r_kWhBase (rateInputs inp))"
  "toNumber (supplyC inp) (Fin 3.331) = Fin (r_supplyC (rateInputs inp))"
  "toNumber (txC inp) (Fin 1.767) = Fin (r_txC (rateInputs inp))"
  "toNumber (dfcNon inp) (Fin 6.062) = Fin (r_dfcNon (rateInputs inp))"
  "toNumber (dfcEH inp) (Fin 2.924) = Fin (r_dfcEH (rateInputs inp))"
  "toNumber (gasSupply inp) (Fin 0.52) = Fin (r_gasSupply (rateInputs inp))"
  "toNumber (gasDist inp) (Fin 0.2134) = Fin (r_gasDist (rateInputs inp))"
  "toNumber (afue inp) (Fin 0.95) = Fin (r_afue (rateInputs inp))"
  "toNumber (heatMMBtu inp) (Fin 37.5) = Fin (r_heatMMBtu (rateInputs inp))"
  "toNumber (seasonalCOP inp) (Fin 2.2) = Fin (r_seasonalCOP (rateInputs inp))"
  "toNumber (gross inp) (Fin 10354) = Fin (r_gross (rateInputs inp))"
  "toNumber (credits inp) (Fin 2600) = Fin (r_credits (rateInputs inp))"
  unfolding rateInputs_def rates.simps by (rule toNumber_real_of)+

lemma rateInputs_DEFAULTS:
  "rateInputs DEFAULTS =
     \<lparr>r_kWhBase = 97300, r_supplyC = 3.331, r_txC = 1.767, r_dfcNon = 6.062, r_dfcEH = 2.924,
      r_gasSupply = 0.52, r_gasDist = 0.2134, r_afue = 0.95, r_heatMMBtu = 37.5,
      r_seasonalCOP = 2.2, r_gross = 10354, r_credits = 2600\<rparr>"
  by code_simp

lemma result_fields:
  "baseline (calc inp u c b) = Math_round (v_baseline (calc_vars inp u c b))"
  "allElectric (calc inp u c b) = Math_round (v_allElectric (calc_vars inp u c b))"
  "savingsAll (calc inp u c b) = Math_round (v_savingsAll (calc_vars inp u c b))"
  "hybrid (calc inp u c b) = map_option Math_round (v_hybrid (calc_vars inp u c b))"
  by (simp_all add: calc_def return_of_def)

lemma small_texts:
  "parsePairs ''0:2, 50:4'' = [\<lparr>x = 0, y = 2\<rparr>, \<lparr>x = 50, y = 4\<rparr>]"
  "parsePairs ''10:1, 40:3'' = [\<lparr>x = 10, y = 1\<rparr>, \<lparr>x = 40, y = 3\<rparr>]"
  "parsePairs ''10:-1, 40:3'' = [\<lparr>x = 10, y = - 1\<rparr>, \<lparr>x = 40, y = 3\<rparr>]"
  by code_simp+

lemma small_cops:
  "cop_at [\<lparr>x = 0, y = 2\<rparr>, \<lparr>x = 50, y = 4\<rparr>] 10 = 2.4"
  "cop_at [\<lparr>x = 0, y = 2\<rparr>, \<lparr>x = 50, y = 4\<rparr>] 40 = 3.6"
  by (simp_all add: cop_at_def real_of_def interpCOP_def interp_scan.simps)

section \<open>The scenario without a COP table\<close>

text \<open>The values of the scenario without a table, on the parsed inputs.\<close>

lemma no_table_vars:
  "v_baseline (calc_vars inp False c b)
     = Fin (r_kWhBase (rateInputs inp)
            * ((r_supplyC (rateInputs inp) + r_txC (rateInputs inp) + r_dfcNon (rateInputs inp)) / 100))
       + Fin (r_heatMMBtu (rateInputs inp) / 0.1) / Fin (r_afue (rateInputs inp))
         * Fin (r_gasSupply (rateInputs inp) + r_gasDist (rateInputs inp))"
  "v_allElectric (calc_vars inp False c b)
     = (Fin (r_kWhBase (rateInputs inp))
        + Fin (r_heatMMBtu (rateInputs inp) * 293.071) / Fin (r_seasonalCOP (rateInputs inp)))
       * Fin ((r_supplyC (rateInputs inp) + r_txC (rateInputs inp) + r_dfcEH (rateInputs inp)) / 100)"
  "net_cost inp = Fin (r_gross (rateInputs inp) - r_credits (rateInputs inp))"
  unfolding calc_vars_def net_cost_def toNumber_rates by (simp_all add: Let_def split_beta)

text \<open>
  C9. Without the COP table the heating consumption is
  \<open>heatMMBtu * 293.071 / seasonalCOP\<close>, in particular \<open>heatMMBtu * 293.071 / 2.2\<close> when
  the seasonal COP is 2.2, and the all-electric cost is the sum of the base and the
  heating consumption times the electric-heat rate; the returned field is that cost
  rounded to the dollar.
\<close>

theorem allElectric_fallback:
  "v_hpKWh (calc_vars inp False copText binsText)
     = (toNumber (heatMMBtu inp) (Fin 37.5) * Fin 293.071) / toNumber (seasonalCOP inp) (Fin 2.2)
   \<and> v_allInEH (calc_vars inp False copText binsText)
     = (toNumber (supplyC inp) (Fin 3.331) + toNumber (txC inp) (Fin 1.767)
        + toNumber (dfcEH inp) (Fin 2.924)) / Fin 100
   \<and> v_allElectric (calc_vars inp False copText binsText)
     = (toNumber (kwhBase inp) (Fin 97300) + v_hpKWh (calc_vars inp False copText binsText))
       * v_allInEH (calc_vars inp False copText binsText)
   \<and> allElectric (calc inp False copText binsText)
     = Math_round (v_allElectric (calc_vars inp False copText binsText))
   \<and> (toNumber (heatMMBtu inp) (Fin 37.5) = Fin h \<and> toNumber (seasonalCOP inp) (Fin 2.2) = Fin 2.2
        \<longrightarrow> v_hpKWh (calc_vars inp False copText binsText) = Fin (h * 293.071 / 2.2))"
  by (simp add: calc_def return_of_def calc_vars_def Let_def split_beta)

theorem allElectric_fallback_witness:
  "v_hpKWh (calc_vars DEFAULTS False DEFAULT_COP DEFAULT_BINS) = Fin (37.5 * 293.071 / 2.2)"
proof -
  have "toNumber (heatMMBtu DEFAULTS) (Fin 37.5) = Fin 37.5
        \<and> toNumber (seasonalCOP DEFAULTS) (Fin 2.2) = Fin 2.2"
    by code_simp
  then show ?thesis
    using allElectric_fallback [of DEFAULTS DEFAULT_COP DEFAULT_BINS "37.5"] by simp
qed

section \<open>The length of the crossover scan\<close>

text \<open>Every step of the scan adds one point to the series, and the scan from \<open>t\<close> takes at
  most \<open>\<lfloor>tMax - t\<rfloor> + 1\<close> steps; with the temperatures of the table within \<open>10^6\<close> of zero
  that is at most 2000001.\<close>

lemma crossover_scan_length:
  "length (snd (crossover_scan hpCost g tMax t prevT prevDiff series))
     \<le> length series + nat (\<lfloor>tMax - t\<rfloor> + 1)"
proof (induction hpCost g tMax t prevT prevDiff series rule: crossover_scan.induct)
  case (1 hpCost g tMax t prevT prevDiff series)
  show ?case
  proof (cases "t \<le> tMax")
    case False
    then show ?thesis by (subst crossover_scan.simps) simp
  next
    case True
    then have fl: "0 \<le> \<lfloor>tMax - t\<rfloor>" by simp
    show ?thesis
    proof (cases "(prevDiff \<le> Fin 0 \<and> Fin 0 \<le> hpCost t - g) \<or> (Fin 0 \<le> prevDiff \<and> hpCost t - g \<le> Fin 0)")
      case hit: True
      show ?thesis
      proof -
        from fl have "1 \<le> nat (\<lfloor>tMax - t\<rfloor> + 1)" by linarith
        then show ?thesis
          by (subst crossover_scan.simps) (simp only: True hit if_True snd_conv length_append, simp)
      qed
    next
      case miss: False
      have "\<lfloor>tMax - (t + 1)\<rfloor> = \<lfloor>tMax - t\<rfloor> - 1"
        by (simp add: diff_diff_eq [symmetric])
      moreover from fl have "nat (\<lfloor>tMax - t\<rfloor> + 1) = Suc (nat \<lfloor>tMax - t\<rfloor>)"
        by linarith
      ultimately have "length (snd (crossover_scan hpCost g tMax (t + 1) t (hpCost t - g)
                    (series @ [\<lparr>s_t = t, s_hp = hpCost t, s_gas = g\<rparr>])))
            \<le> length series + nat (\<lfloor>tMax - t\<rfloor> + 1)"
        using "1.IH" [OF True miss] fl by simp
      then show ?thesis
        by (subst crossover_scan.simps) (simp only: True miss if_True if_False)
    qed
  qed
qed

lemma scan_bounded:
  assumes "grid_in_range (parsePairs copText)"
  shows "length (crossoverSeries (calc inp True copText binsText)) \<le> 2000001"
proof (cases "1 < length (parsePairs copText)")
  case False
  then show ?thesis
    by (simp add: calc_def return_of_def calc_vars_def Let_def split_beta crossover_def)
next
  case True
  let ?T = "parsePairs copText"
  from True have "0 < length ?T" "length ?T - 1 < length ?T"
    by auto
  then have "?T ! 0 \<in> set ?T" "?T ! (length ?T - 1) \<in> set ?T"
    by (simp_all only: nth_mem)
  with assms have lo: "- (10 ^ 6) \<le> x (?T ! 0)" and hi: "x (?T ! (length ?T - 1)) \<le> 10 ^ 6"
    by (auto simp: grid_in_range_def list_all_iff abs_le_iff dest!: bspec)
  have "\<lfloor>max 65 (x (?T ! (length ?T - 1))) - min (- 20) (x (?T ! 0))\<rfloor> \<le> 2000000"
    using lo hi by (simp add: floor_le_iff min_def max_def)
  then have "nat (\<lfloor>max 65 (x (?T ! (length ?T - 1))) - min (- 20) (x (?T ! 0))\<rfloor> + 1) \<le> 2000001"
    by linarith
  with crossover_scan_length [of _ _ "max 65 (x (?T ! (length ?T - 1)))" "min (- 20) (x (?T ! 0))" _ _ "[]"]
  show ?thesis
    using True
    by (simp add: calc_def return_of_def calc_vars_def Let_def split_beta crossover_def)
       (meson le_trans)
qed

lemma series_bounded:
  "u \<longrightarrow> grid_in_range (parsePairs c) \<Longrightarrow> length (crossoverSeries (calc inp u c b)) \<le> 2000001"
proof (cases u)
  case True
  assume "u \<longrightarrow> grid_in_range (parsePairs c)"
  with True have "grid_in_range (parsePairs c)" by simp
  from scan_bounded [OF this] True show ?thesis by simp
next
  case False
  then show ?thesis
    by (simp add: calc_def return_of_def calc_vars_def Let_def split_beta crossover_def)
qed

section \<open>The scenarios with the table\<close>

lemma bin_step_fields:
  assumes "cop_at table (x r) \<noteq> 0"
    and "b_hpKWh st = Fin k" and "b_costHPsum st = Fin ch" and "b_costGASsum st = Fin cg"
  shows "b_hpKWh (bin_step table (Fin heat) (Fin e) (Fin g) st \<lparr>x = x r, y = Fin w\<rparr>)
           = Fin (k + heat * (w / 100) * (293.071 / cop_at table (x r)))"
    and "b_costHPsum (bin_step table (Fin heat) (Fin e) (Fin g) st \<lparr>x = x r, y = Fin w\<rparr>)
           = Fin (ch + (if hp_unit_cost table e r \<le> g then heat * (w / 100) * hp_unit_cost table e r else 0))"
    and "b_costGASsum (bin_step table (Fin heat) (Fin e) (Fin g) st \<lparr>x = x r, y = Fin w\<rparr>)
           = Fin (cg + (if hp_unit_cost table e r \<le> g then 0 else heat * (w / 100) * g))"
  using assms by (simp_all add: bin_step_def Let_def interpCOP_Fin hp_unit_cost_def)

lemma foldl_bin_step:
  assumes "\<forall>r \<in> set rs. cop_at table (x r) \<noteq> 0"
    and "b_hpKWh st = Fin k" and "b_costHPsum st = Fin ch" and "b_costGASsum st = Fin cg"
  shows "b_hpKWh (foldl (bin_step table (Fin heat) (Fin e) (Fin g)) st
                   (map (\<lambda>r. \<lparr>x = x r, y = Fin (w r)\<rparr>) rs))
           = Fin (k + (\<Sum>r\<leftarrow>rs. heat * (w r / 100) * (293.071 / cop_at table (x r))))
       \<and> b_costHPsum (foldl (bin_step table (Fin heat) (Fin e) (Fin g)) st
                   (map (\<lambda>r. \<lparr>x = x r, y = Fin (w r)\<rparr>) rs))
           = Fin (ch + (\<Sum>r\<leftarrow>rs. if hp_unit_cost table e r \<le> g
                                   then heat * (w r / 100) * hp_unit_cost table e r else 0))
       \<and> b_costGASsum (foldl (bin_step table (Fin heat) (Fin e) (Fin g)) st
                   (map (\<lambda>r. \<lparr>x = x r, y = Fin (w r)\<rparr>) rs))
           = Fin (cg + (\<Sum>r\<leftarrow>rs. if hp_unit_cost table e r \<le> g
                                   then 0 else heat * (w r / 100) * g))"
  using assms
proof (induction rs arbitrary: st k ch cg)
  case Nil
  then show ?case by simp
next
  case (Cons r rs)
  from Cons.prems have c: "cop_at table (x r) \<noteq> 0" and rest: "\<forall>r \<in> set rs. cop_at table (x r) \<noteq> 0"
    by simp_all
  note step = bin_step_fields [OF c Cons.prems(2) Cons.prems(3) Cons.prems(4), of heat e g "w r"]
  from Cons.IH [OF rest step] show ?case
    by (simp add: add.assoc)
qed

lemma table_loop:
  assumes "\<forall>r \<in> set bins. cop_at table (x r) \<noteq> 0"
  shows "b_hpKWh (bins_loop table (Fin heat) (Fin e) (Fin g) (normalizeBins bins))
           = Fin (\<Sum>r\<leftarrow>bins. bin_heat heat bins r * (293.071 / cop_at table (x r)))"
    and "b_costHPsum (bins_loop table (Fin heat) (Fin e) (Fin g) (normalizeBins bins))
           = Fin (\<Sum>r\<leftarrow>bins. if hp_unit_cost table e r \<le> g
                              then bin_heat heat bins r * hp_unit_cost table e r else 0)"
    and "b_costGASsum (bins_loop table (Fin heat) (Fin e) (Fin g) (normalizeBins bins))
           = Fin (\<Sum>r\<leftarrow>bins. if hp_unit_cost table e r \<le> g
                              then 0 else bin_heat heat bins r * g)"
  unfolding bins_loop_def normalizeBins_eq bin_heat_def
  using foldl_bin_step [OF assms, of _ 0 0 0 heat e g
          "\<lambda>r. y r * 100 / (if sum_list (map y bins) = 0 then 1 else sum_list (map y bins))"]
  by simp_all

lemma table_vars:
  assumes "r_afue (rateInputs inp) \<noteq> 0"
    and "\<forall>r \<in> set (parsePairs b). cop_at (parsePairs c) (x r) \<noteq> 0"
  shows "v_hybrid (calc_vars inp True c b)
           = Some (Fin (r_kWhBase (rateInputs inp) * rate_EH (rateInputs inp)
                 + (\<Sum>r\<leftarrow>parsePairs b.
                      if hp_unit_cost (parsePairs c) (rate_EH (rateInputs inp)) r \<le> gas_unit_cost (rateInputs inp)
                      then bin_heat (r_heatMMBtu (rateInputs inp)) (parsePairs b) r
                           * hp_unit_cost (parsePairs c) (rate_EH (rateInputs inp)) r
                      else 0)
                 + (\<Sum>r\<leftarrow>parsePairs b.
                      if hp_unit_cost (parsePairs c) (rate_EH (rateInputs inp)) r \<le> gas_unit_cost (rateInputs inp)
                      then 0
                      else bin_heat (r_heatMMBtu (rateInputs inp)) (parsePairs b) r
                           * gas_unit_cost (rateInputs inp))))"
    and "v_allElectric (calc_vars inp True c b)
           = Fin ((r_kWhBase (rateInputs inp)
                   + (\<Sum>r\<leftarrow>parsePairs b. bin_heat (r_heatMMBtu (rateInputs inp)) (parsePairs b) r
                                         * (293.071 / cop_at (parsePairs c) (x r))))
                  * rate_EH (rateInputs inp))"
    and "v_baseline (calc_vars inp True c b)
           = Fin (r_kWhBase (rateInputs inp) * rate_Non (rateInputs inp)
                  + r_heatMMBtu (rateInputs inp) / 0.1 / r_afue (rateInputs inp)
                    * (r_gasSupply (rateInputs inp) + r_gasDist (rateInputs inp)))"
proof -
  have g: "Fin 1 / Fin 0.1 / Fin (r_afue (rateInputs inp))
             * (Fin (r_gasSupply (rateInputs inp)) + Fin (r_gasDist (rateInputs inp)))
           = Fin (gas_unit_cost (rateInputs inp))"
    using assms(1) by (simp add: gas_unit_cost_def)
  have e: "(Fin (r_supplyC (rateInputs inp)) + Fin (r_txC (rateInputs inp)) + Fin (r_dfcEH (rateInputs inp))) / Fin 100
           = Fin (rate_EH (rateInputs inp))"
    by (simp add: rate_EH_def)
  note loop = table_loop [OF assms(2), of "r_heatMMBtu (rateInputs inp)" "rate_EH (rateInputs inp)"
                 "gas_unit_cost (rateInputs inp)"]
  show "v_hybrid (calc_vars inp True c b)
           = Some (Fin (r_kWhBase (rateInputs inp) * rate_EH (rateInputs inp)
                 + (\<Sum>r\<leftarrow>parsePairs b.
                      if hp_unit_cost (parsePairs c) (rate_EH (rateInputs inp)) r \<le> gas_unit_cost (rateInputs inp)
                      then bin_heat (r_heatMMBtu (rateInputs inp)) (parsePairs b) r
                           * hp_unit_cost (parsePairs c) (rate_EH (rateInputs inp)) r
                      else 0)
                 + (\<Sum>r\<leftarrow>parsePairs b.
                      if hp_unit_cost (parsePairs c) (rate_EH (rateInputs inp)) r \<le> gas_unit_cost (rateInputs inp)
                      then 0
                      else bin_heat (r_heatMMBtu (rateInputs inp)) (parsePairs b) r
                           * gas_unit_cost (rateInputs inp))))"
    unfolding calc_vars_def toNumber_rates Let_def g e
    by (simp add: split_beta loop)
  show "v_allElectric (calc_vars inp True c b)
           = Fin ((r_kWhBase (rateInputs inp)
                   + (\<Sum>r\<leftarrow>parsePairs b. bin_heat (r_heatMMBtu (rateInputs inp)) (parsePairs b) r
                                         * (293.071 / cop_at (parsePairs c) (x r))))
                  * rate_EH (rateInputs inp))"
    unfolding calc_vars_def toNumber_rates Let_def g e
    by (simp add: split_beta loop)
  show "v_baseline (calc_vars inp True c b)
           = Fin (r_kWhBase (rateInputs inp) * rate_Non (rateInputs inp)
                  + r_heatMMBtu (rateInputs inp) / 0.1 / r_afue (rateInputs inp)
                    * (r_gasSupply (rateInputs inp) + r_gasDist (rateInputs inp)))"
    unfolding calc_vars_def toNumber_rates Let_def
    using assms(1) by (simp add: split_beta rate_Non_def)
qed

lemma dispatch_le_hp:
  fixes m hp :: "'a \<Rightarrow> real"
  assumes "\<forall>r \<in> set rs. 0 \<le> m r"
  shows "(\<Sum>r\<leftarrow>rs. if hp r \<le> g then m r * hp r else 0) + (\<Sum>r\<leftarrow>rs. if hp r \<le> g then 0 else m r * g)
         \<le> (\<Sum>r\<leftarrow>rs. m r * hp r)"
  using assms
proof (induction rs)
  case Nil
  then show ?case by simp
next
  case (Cons r rs)
  then have ih: "(\<Sum>r\<leftarrow>rs. if hp r \<le> g then m r * hp r else 0) + (\<Sum>r\<leftarrow>rs. if hp r \<le> g then 0 else m r * g)
         \<le> (\<Sum>r\<leftarrow>rs. m r * hp r)" and m: "0 \<le> m r"
    by simp_all
  show ?case
  proof (cases "hp r \<le> g")
    case True
    with ih show ?thesis by simp
  next
    case False
    then have "m r * g \<le> m r * hp r"
      using m by (intro mult_left_mono) simp_all
    with ih False show ?thesis by simp
  qed
qed

lemma dispatch_le_gas:
  fixes m hp :: "'a \<Rightarrow> real"
  assumes "\<forall>r \<in> set rs. 0 \<le> m r"
  shows "(\<Sum>r\<leftarrow>rs. if hp r \<le> g then m r * hp r else 0) + (\<Sum>r\<leftarrow>rs. if hp r \<le> g then 0 else m r * g)
         \<le> (\<Sum>r\<leftarrow>rs. m r) * g"
  using assms
proof (induction rs)
  case Nil
  then show ?case by simp
next
  case (Cons r rs)
  then have ih: "(\<Sum>r\<leftarrow>rs. if hp r \<le> g then m r * hp r else 0) + (\<Sum>r\<leftarrow>rs. if hp r \<le> g then 0 else m r * g)
         \<le> (\<Sum>r\<leftarrow>rs. m r) * g" and m: "0 \<le> m r"
    by simp_all
  show ?case
  proof (cases "hp r \<le> g")
    case True
    then have "m r * hp r \<le> m r * g"
      using m by (intro mult_left_mono) simp_all
    with ih True show ?thesis by (simp add: algebra_simps)
  next
    case False
    with ih show ?thesis by (simp add: algebra_simps)
  qed
qed

lemma bin_heat_nonneg:
  assumes "0 \<le> heat" and "\<forall>r \<in> set bins. 0 \<le> y r" and "r \<in> set bins"
  shows "0 \<le> bin_heat heat bins r"
proof -
  have "0 \<le> sum_list (map y bins)"
    using assms(2) by (intro sum_list_nonneg) auto
  then show ?thesis
    using assms by (simp add: bin_heat_def)
qed

lemma bin_heat_sum:
  "sum_list (map y bins) \<noteq> 0 \<Longrightarrow> (\<Sum>r\<leftarrow>bins. bin_heat heat bins r) = heat"
proof -
  assume nz: "sum_list (map y bins) \<noteq> 0"
  have "(\<Sum>r\<leftarrow>bins. bin_heat heat bins r)
        = (\<Sum>r\<leftarrow>bins. y r * (heat / sum_list (map y bins)))"
    using nz by (simp add: bin_heat_def mult.commute)
  also have "\<dots> = sum_list (map y bins) * (heat / sum_list (map y bins))"
    by (rule sum_list_scaled)
  also have "\<dots> = heat"
    using nz by simp
  finally show ?thesis .
qed

lemma rate_EH_le_Non:
  "r_kWhBase ra * r_dfcEH ra \<le> r_kWhBase ra * r_dfcNon ra \<Longrightarrow>
     r_kWhBase ra * rate_EH ra \<le> r_kWhBase ra * rate_Non ra"
  by (simp add: rate_EH_def rate_Non_def algebra_simps divide_right_mono)

lemma hybrid_le_unrounded:
  assumes afue: "r_afue (rateInputs inp) \<noteq> 0"
    and heat: "0 \<le> r_heatMMBtu (rateInputs inp)"
    and bins: "\<forall>r \<in> set (parsePairs b). 0 \<le> y r \<and> cop_at (parsePairs c) (x r) \<noteq> 0"
  shows "\<exists>h a bl. v_hybrid (calc_vars inp True c b) = Some (Fin h)
           \<and> v_allElectric (calc_vars inp True c b) = Fin a
           \<and> v_baseline (calc_vars inp True c b) = Fin bl
           \<and> h \<le> a
           \<and> (sum_list (map y (parsePairs b)) \<noteq> 0
                \<and> r_kWhBase (rateInputs inp) * r_dfcEH (rateInputs inp)
                    \<le> r_kWhBase (rateInputs inp) * r_dfcNon (rateInputs inp)
              \<longrightarrow> h \<le> bl)"
proof -
  let ?ra = "rateInputs inp"
  let ?R = "parsePairs b"
  let ?m = "bin_heat (r_heatMMBtu ?ra) ?R"
  let ?hp = "hp_unit_cost (parsePairs c) (rate_EH ?ra)"
  let ?g = "gas_unit_cost ?ra"
  let ?D = "(\<Sum>r\<leftarrow>?R. if ?hp r \<le> ?g then ?m r * ?hp r else 0)
            + (\<Sum>r\<leftarrow>?R. if ?hp r \<le> ?g then 0 else ?m r * ?g)"
  have cop: "\<forall>r \<in> set ?R. cop_at (parsePairs c) (x r) \<noteq> 0"
    using bins by simp
  have m: "\<forall>r \<in> set ?R. 0 \<le> ?m r"
    using bins heat by (auto intro: bin_heat_nonneg)
  note vars = table_vars [OF afue cop]
  have elec: "(r_kWhBase ?ra + (\<Sum>r\<leftarrow>?R. ?m r * (293.071 / cop_at (parsePairs c) (x r)))) * rate_EH ?ra
              = r_kWhBase ?ra * rate_EH ?ra + (\<Sum>r\<leftarrow>?R. ?m r * ?hp r)"
  proof -
    have "(\<Sum>r\<leftarrow>?R. ?m r * ?hp r)
          = (\<Sum>r\<leftarrow>?R. ?m r * (293.071 / cop_at (parsePairs c) (x r)) * rate_EH ?ra)"
      by (simp only: hp_unit_cost_def mult.assoc)
    also have "\<dots> = (\<Sum>r\<leftarrow>?R. ?m r * (293.071 / cop_at (parsePairs c) (x r))) * rate_EH ?ra"
      by (rule sum_list_mult_const)
    finally show ?thesis
      by (simp only: distrib_right)
  qed
  have le_a: "r_kWhBase ?ra * rate_EH ?ra + ?D
              \<le> (r_kWhBase ?ra + (\<Sum>r\<leftarrow>?R. ?m r * (293.071 / cop_at (parsePairs c) (x r)))) * rate_EH ?ra"
    unfolding elec using dispatch_le_hp [OF m, of ?hp ?g] by simp
  have le_b: "r_kWhBase ?ra * rate_EH ?ra + ?D
              \<le> r_kWhBase ?ra * rate_Non ?ra
                  + r_heatMMBtu ?ra / 0.1 / r_afue ?ra * (r_gasSupply ?ra + r_gasDist ?ra)"
    if nz: "sum_list (map y ?R) \<noteq> 0"
      and dfc: "r_kWhBase ?ra * r_dfcEH ?ra \<le> r_kWhBase ?ra * r_dfcNon ?ra"
  proof -
    have "?D \<le> (\<Sum>r\<leftarrow>?R. ?m r) * ?g"
      using dispatch_le_gas [OF m, of ?hp ?g] .
    also have "\<dots> = r_heatMMBtu ?ra * ?g"
      by (simp only: bin_heat_sum [OF nz])
    also have "\<dots> = r_heatMMBtu ?ra / 0.1 / r_afue ?ra * (r_gasSupply ?ra + r_gasDist ?ra)"
      by (simp add: gas_unit_cost_def)
    finally show ?thesis
      using rate_EH_le_Non [OF dfc] by simp
  qed
  show ?thesis
    unfolding vars using le_a le_b by (simp add: add.assoc)
qed

lemma rateInputs_dfc_swapped:
  "rateInputs (DEFAULTS\<lparr>dfcNon := ''2.924'', dfcEH := ''6.062''\<rparr>) =
     \<lparr>r_kWhBase = 97300, r_supplyC = 3.331, r_txC = 1.767, r_dfcNon = 2.924, r_dfcEH = 6.062,
      r_gasSupply = 0.52, r_gasDist = 0.2134, r_afue = 0.95, r_heatMMBtu = 37.5,
      r_seasonalCOP = 2.2, r_gross = 10354, r_credits = 2600\<rparr>"
  by code_simp

text \<open>
  C7, as stated, fails. With the electric-heat delivery rate above the other one and gas
  the cheaper fuel in every bin, the hybrid cost (11148) exceeds the baseline (8095); and
  with a negative weight in a bin the hybrid cost (8028) exceeds the all-electric cost
  (7989).
\<close>

theorem hybrid_dominance_counterexample:
  "hybrid (calc (DEFAULTS\<lparr>dfcNon := ''2.924'', dfcEH := ''6.062''\<rparr>) True ''0:2, 50:4'' ''10:1, 40:3'')
     = Some (Fin 11148)
   \<and> baseline (calc (DEFAULTS\<lparr>dfcNon := ''2.924'', dfcEH := ''6.062''\<rparr>) True ''0:2, 50:4'' ''10:1, 40:3'')
     = Fin 8095
   \<and> hybrid (calc DEFAULTS True ''0:2, 50:4'' ''10:-1, 40:3'') = Some (Fin 8028)
   \<and> allElectric (calc DEFAULTS True ''0:2, 50:4'' ''10:-1, 40:3'') = Fin 7989"
proof -
  let ?I = "DEFAULTS\<lparr>dfcNon := ''2.924'', dfcEH := ''6.062''\<rparr>"
  have afue: "r_afue (rateInputs ?I) \<noteq> 0" "r_afue (rateInputs DEFAULTS) \<noteq> 0"
    unfolding rateInputs_dfc_swapped rateInputs_DEFAULTS by simp_all
  have cops: "\<forall>r \<in> set (parsePairs ''10:1, 40:3''). cop_at (parsePairs ''0:2, 50:4'') (x r) \<noteq> 0"
      "\<forall>r \<in> set (parsePairs ''10:-1, 40:3''). cop_at (parsePairs ''0:2, 50:4'') (x r) \<noteq> 0"
    unfolding small_texts by (simp_all add: small_cops)
  note a = table_vars [OF afue(1) cops(1)]
  note b = table_vars [OF afue(2) cops(2)]
  show ?thesis
    unfolding result_fields a b small_texts rateInputs_dfc_swapped rateInputs_DEFAULTS
    by (simp add: bin_heat_def hp_unit_cost_def gas_unit_cost_def rate_EH_def rate_Non_def small_cops)
qed

text \<open>
  C7, amended. With the table, for rates of a magnitude of at most \<open>10^50\<close> with an AFUE of a
  magnitude of at least \<open>10^-50\<close>, a heat load that is not negative, table COPs between
  \<open>10^-3\<close> and \<open>10^3\<close> at temperatures within \<open>10^6\<close> of zero, and weights between 0 and
  \<open>10^50\<close>: the crossover scan ends within 2000001 steps, the three scenario costs are
  finite, the returned fields are these costs rounded to the dollar, and before that
  rounding the hybrid cost is at most the all-electric cost. When moreover the weights do
  not sum to zero and the base consumption costs no more at the electric-heat delivery rate
  than at the other one (the DFC savings are not negative), the hybrid cost is at most the
  baseline cost. The inequalities are those of the exact values: the doubles of the program
  satisfy them within floating tolerance, so that after the rounding to the dollar two
  costs that are equal here can come out one dollar apart in either order.
\<close>

theorem hybrid_dominance:
  assumes rates: "rates_in_range (rateInputs inp)"
    and heat: "0 \<le> r_heatMMBtu (rateInputs inp)"
    and table: "table_in_range (parsePairs copText)"
    and bins: "weights_in_range (parsePairs binsText)"
  shows "length (crossoverSeries (calc inp True copText binsText)) \<le> 2000001
     \<and> hybrid (calc inp True copText binsText)
         = map_option Math_round (v_hybrid (calc_vars inp True copText binsText))
     \<and> allElectric (calc inp True copText binsText)
         = Math_round (v_allElectric (calc_vars inp True copText binsText))
     \<and> baseline (calc inp True copText binsText)
         = Math_round (v_baseline (calc_vars inp True copText binsText))
     \<and> (\<exists>h a bl. v_hybrid (calc_vars inp True copText binsText) = Some (Fin h)
           \<and> v_allElectric (calc_vars inp True copText binsText) = Fin a
           \<and> v_baseline (calc_vars inp True copText binsText) = Fin bl
           \<and> h \<le> a
           \<and> (sum_list (map y (parsePairs binsText)) \<noteq> 0
                \<and> r_kWhBase (rateInputs inp) * r_dfcEH (rateInputs inp)
                    \<le> r_kWhBase (rateInputs inp) * r_dfcNon (rateInputs inp)
              \<longrightarrow> h \<le> bl))"
proof -
  from table have "grid_in_range (parsePairs copText)"
    by (simp add: table_in_range_def)
  then have scan: "length (crossoverSeries (calc inp True copText binsText)) \<le> 2000001"
    by (rule scan_bounded)
  from rates have "1 / 10 ^ 50 \<le> \<bar>r_afue (rateInputs inp)\<bar>"
    by (simp add: rates_in_range_def)
  then have afue: "r_afue (rateInputs inp) \<noteq> 0"
    by auto
  from table have "\<forall>p \<in> set (parsePairs copText). 0 < y p"
    by (auto simp: table_in_range_def list_all_iff intro: less_le_trans [of 0 "1 / 10 ^ 3"])
  then have cop: "0 < cop_at (parsePairs copText) t" for t
    by (rule cop_at_pos)
  from bins have w: "\<forall>r \<in> set (parsePairs binsText). 0 \<le> y r"
    by (simp add: weights_in_range_def list_all_iff)
  have "\<forall>r \<in> set (parsePairs binsText). 0 \<le> y r \<and> cop_at (parsePairs copText) (x r) \<noteq> 0"
    using w cop by (auto simp: less_imp_neq [THEN not_sym])
  from hybrid_le_unrounded [OF afue heat this] scan show ?thesis
    by (simp add: result_fields)
qed

theorem hybrid_dominance_witness:
  "rates_in_range (rateInputs DEFAULTS)
   \<and> table_in_range (parsePairs ''0:2, 50:4'')
   \<and> weights_in_range (parsePairs ''10:1, 40:3'')
   \<and> (\<exists>h a bl. v_hybrid (calc_vars DEFAULTS True ''0:2, 50:4'' ''10:1, 40:3'') = Some (Fin h)
     \<and> v_allElectric (calc_vars DEFAULTS True ''0:2, 50:4'' ''10:1, 40:3'') = Fin a
     \<and> v_baseline (calc_vars DEFAULTS True ''0:2, 50:4'' ''10:1, 40:3'') = Fin bl
     \<and> h \<le> a \<and> h \<le> bl)"
proof -
  have rates: "rates_in_range (rateInputs DEFAULTS)" and heat: "0 \<le> r_heatMMBtu (rateInputs DEFAULTS)"
    unfolding rateInputs_DEFAULTS by (simp_all add: rates_in_range_def)
  have table: "table_in_range (parsePairs ''0:2, 50:4'')"
    and bins: "weights_in_range (parsePairs ''10:1, 40:3'')"
    unfolding small_texts by (simp_all add: table_in_range_def grid_in_range_def weights_in_range_def)
  have cond: "sum_list (map y (parsePairs ''10:1, 40:3'')) \<noteq> 0
      \<and> r_kWhBase (rateInputs DEFAULTS) * r_dfcEH (rateInputs DEFAULTS)
          \<le> r_kWhBase (rateInputs DEFAULTS) * r_dfcNon (rateInputs DEFAULTS)"
    unfolding small_texts rateInputs_DEFAULTS by simp
  from hybrid_dominance [OF rates heat table bins] cond rates table bins show ?thesis
    by blast
qed

section \<open>Savings and payback\<close>

lemma positive_truthy: "Fin 0 < s \<Longrightarrow> truthy s"
  by (cases s) auto

lemma paybackAll_eq:
  "paybackAll (calc inp u c b) =
     payback_field (if Fin 0 < v_savingsAll (calc_vars inp u c b)
                    then Some (net_cost inp / v_savingsAll (calc_vars inp u c b)) else None)"
  by (simp add: calc_def return_of_def calc_vars_def Let_def split_beta net_cost_def)

lemma paybackHybrid_eq:
  "paybackHybrid (calc inp u c b) =
     payback_field (case v_savingsHybrid (calc_vars inp u c b) of
                      None \<Rightarrow> None
                    | Some s \<Rightarrow> if Fin 0 < s then Some (net_cost inp / s) else None)"
  by (auto simp: calc_def return_of_def calc_vars_def Let_def split_beta net_cost_def positive_truthy
           split: option.splits)

lemma savings_eq:
  "v_savingsAll (calc_vars inp u c b) = v_baseline (calc_vars inp u c b) - v_allElectric (calc_vars inp u c b)
   \<and> v_savingsHybrid (calc_vars inp u c b)
       = map_option (\<lambda>h. v_baseline (calc_vars inp u c b) - h) (v_hybrid (calc_vars inp u c b))"
  by (simp add: calc_vars_def Let_def split_beta split: option.splits)

lemma payback_field_None [simp]: "payback_field None = None"
  by (simp add: payback_field_def)

lemma payback_field_truthy:
  "truthy q \<Longrightarrow> payback_field (Some q) = Some (toFixed 1 q)"
  by (simp add: payback_field_def)

lemma rateInputs_gross_2600:
  "rateInputs (DEFAULTS\<lparr>gross := ''2600''\<rparr>) =
     \<lparr>r_kWhBase = 97300, r_supplyC = 3.331, r_txC = 1.767, r_dfcNon = 6.062, r_dfcEH = 2.924,
      r_gasSupply = 0.52, r_gasDist = 0.2134, r_afue = 0.95, r_heatMMBtu = 37.5,
      r_seasonalCOP = 2.2, r_gross = 2600, r_credits = 2600\<rparr>"
  by code_simp

lemma savings_DEFAULTS:
  "v_savingsAll (calc_vars DEFAULTS False DEFAULT_COP DEFAULT_BINS) = Fin (25889887857 / 8800000)"
  "v_savingsAll (calc_vars (DEFAULTS\<lparr>gross := ''2600''\<rparr>) False DEFAULT_COP DEFAULT_BINS) = Fin (25889887857 / 8800000)"
  "net_cost DEFAULTS = Fin 7754"
  "net_cost (DEFAULTS\<lparr>gross := ''2600''\<rparr>) = Fin 0"
  unfolding savings_eq [THEN conjunct1] no_table_vars rateInputs_DEFAULTS rateInputs_gross_2600
  by simp_all

lemma hybrid_savings_small:
  "v_savingsHybrid (calc_vars DEFAULTS True ''0:2, 50:4'' ''10:1, 40:3'')
     = Some (Fin (19755045819 / 6400000))"
proof -
  have afue: "r_afue (rateInputs DEFAULTS) \<noteq> 0"
    unfolding rateInputs_DEFAULTS by simp
  have cops: "\<forall>r \<in> set (parsePairs ''10:1, 40:3''). cop_at (parsePairs ''0:2, 50:4'') (x r) \<noteq> 0"
    unfolding small_texts by (simp add: small_cops)
  show ?thesis
    unfolding savings_eq [THEN conjunct2] table_vars [OF afue cops] small_texts rateInputs_DEFAULTS
    by (simp add: bin_heat_def hp_unit_cost_def gas_unit_cost_def rate_EH_def rate_Non_def small_cops)
qed

text \<open>
  C3, as stated, fails twice. With gross cost equal to the credits and positive savings the
  payback field is null, not 0; and the field holds the quotient rounded to one decimal,
  which at the defaults is 2.6 and not the quotient itself.
\<close>

theorem payback_counterexample:
  "Fin 0 < v_savingsAll (calc_vars (DEFAULTS\<lparr>gross := ''2600''\<rparr>) False DEFAULT_COP DEFAULT_BINS)
   \<and> paybackAll (calc (DEFAULTS\<lparr>gross := ''2600''\<rparr>) False DEFAULT_COP DEFAULT_BINS) = None
   \<and> paybackAll (calc DEFAULTS False DEFAULT_COP DEFAULT_BINS) = Some (Fin 2.6)
   \<and> net_cost DEFAULTS / v_savingsAll (calc_vars DEFAULTS False DEFAULT_COP DEFAULT_BINS) \<noteq> Fin 2.6"
  unfolding paybackAll_eq savings_DEFAULTS
  by (simp add: payback_field_def round_fixed_def)

text \<open>
  C3, amended. Without the table, or with a table whose temperatures are within \<open>10^6\<close> of
  zero, the crossover scan ends within 2000001 steps, so that \<^verbatim>\<open>calc\<close> returns, and on
  these inputs: the savings are the baseline minus the cost of the scenario; when the
  savings are positive and the quotient of the net cost by the savings is neither zero nor
  NaN, the payback field is that quotient rounded to one decimal; when the savings are not
  positive (or, for the hybrid scenario, absent) the field is null. What the field holds
  when the quotient is zero or NaN is left open here, and nothing is said on the size of
  the field: in the doubles of the program the quotient can overflow to an infinity, which
  the rounding to one decimal passes on.
\<close>

theorem payback_spec:
  assumes "u \<longrightarrow> grid_in_range (parsePairs c)"
  shows "length (crossoverSeries (calc inp u c b)) \<le> 2000001
   \<and> v_savingsAll (calc_vars inp u c b)
     = v_baseline (calc_vars inp u c b) - v_allElectric (calc_vars inp u c b)
   \<and> v_savingsHybrid (calc_vars inp u c b)
     = map_option (\<lambda>h. v_baseline (calc_vars inp u c b) - h) (v_hybrid (calc_vars inp u c b))
   \<and> (Fin 0 < v_savingsAll (calc_vars inp u c b)
        \<and> truthy (net_cost inp / v_savingsAll (calc_vars inp u c b))
      \<longrightarrow> paybackAll (calc inp u c b)
           = Some (toFixed 1 (net_cost inp / v_savingsAll (calc_vars inp u c b))))
   \<and> (\<not> Fin 0 < v_savingsAll (calc_vars inp u c b) \<longrightarrow> paybackAll (calc inp u c b) = None)
   \<and> (\<forall>s. v_savingsHybrid (calc_vars inp u c b) = Some s \<and> Fin 0 < s \<and> truthy (net_cost inp / s)
          \<longrightarrow> paybackHybrid (calc inp u c b) = Some (toFixed 1 (net_cost inp / s)))
   \<and> (\<forall>s. v_savingsHybrid (calc_vars inp u c b) = Some s \<and> \<not> Fin 0 < s
          \<longrightarrow> paybackHybrid (calc inp u c b) = None)
   \<and> (v_savingsHybrid (calc_vars inp u c b) = None \<longrightarrow> paybackHybrid (calc inp u c b) = None)"
proof -
  let ?sa = "v_savingsAll (calc_vars inp u c b)"
  have a1: "paybackAll (calc inp u c b) = Some (toFixed 1 (net_cost inp / ?sa))"
    if "Fin 0 < ?sa" "truthy (net_cost inp / ?sa)"
    using that by (simp add: paybackAll_eq payback_field_truthy)
  have a2: "paybackAll (calc inp u c b) = None" if "\<not> Fin 0 < ?sa"
    using that by (simp add: paybackAll_eq)
  have h1: "paybackHybrid (calc inp u c b) = Some (toFixed 1 (net_cost inp / s))"
    if "v_savingsHybrid (calc_vars inp u c b) = Some s" "Fin 0 < s" "truthy (net_cost inp / s)" for s
    using that by (simp add: paybackHybrid_eq payback_field_truthy)
  have h2: "paybackHybrid (calc inp u c b) = None"
    if "v_savingsHybrid (calc_vars inp u c b) = Some s" "\<not> Fin 0 < s" for s
    using that by (simp add: paybackHybrid_eq)
  have h3: "paybackHybrid (calc inp u c b) = None"
    if "v_savingsHybrid (calc_vars inp u c b) = None"
    using that by (simp add: paybackHybrid_eq)
  from series_bounded [OF assms, of inp b] savings_eq [of inp u c b] a1 a2 h1 h2 h3 show ?thesis
    by blast
qed

theorem payback_spec_witness:
  "grid_in_range (parsePairs ''0:2, 50:4'')
   \<and> Fin 0 < v_savingsAll (calc_vars DEFAULTS False DEFAULT_COP DEFAULT_BINS)
   \<and> paybackAll (calc DEFAULTS False DEFAULT_COP DEFAULT_BINS) = Some (Fin 2.6)
   \<and> paybackHybrid (calc DEFAULTS False DEFAULT_COP DEFAULT_BINS) = None
   \<and> paybackHybrid (calc DEFAULTS True ''0:2, 50:4'' ''10:1, 40:3'') = Some (Fin 2.5)"
proof -
  have grid: "grid_in_range (parsePairs ''0:2, 50:4'')"
    unfolding small_texts by (simp add: grid_in_range_def)
  have none: "v_savingsHybrid (calc_vars DEFAULTS False DEFAULT_COP DEFAULT_BINS) = None"
    by (simp add: calc_vars_def Let_def split_beta)
  have pos: "Fin 0 < v_savingsAll (calc_vars DEFAULTS False DEFAULT_COP DEFAULT_BINS)"
    unfolding savings_DEFAULTS by simp
  have q: "net_cost DEFAULTS / v_savingsAll (calc_vars DEFAULTS False DEFAULT_COP DEFAULT_BINS)
           = Fin (7754 / (25889887857 / 8800000))"
    unfolding savings_DEFAULTS by simp
  have r: "toFixed 1 (Fin (7754 / (25889887857 / 8800000))) = Fin 2.6"
    by (simp add: round_fixed_def)
  have t: "truthy (Fin (7754 / (25889887857 / 8800000)))"
    by simp
  have qh: "net_cost DEFAULTS / Fin (19755045819 / 6400000) = Fin (7754 / (19755045819 / 6400000))"
    unfolding savings_DEFAULTS by simp
  have rh: "toFixed 1 (Fin (7754 / (19755045819 / 6400000))) = Fin 2.5"
    by (simp add: round_fixed_def)
  have all: "paybackAll (calc DEFAULTS False DEFAULT_COP DEFAULT_BINS) = Some (Fin 2.6)
             \<and> paybackHybrid (calc DEFAULTS False DEFAULT_COP DEFAULT_BINS) = None"
    using payback_spec [of False DEFAULT_COP DEFAULTS DEFAULT_BINS] none pos t
    unfolding q r by simp
  have pos_h: "Fin 0 < Fin (19755045819 / 6400000)"
    by simp
  have nz_h: "truthy (net_cost DEFAULTS / Fin (19755045819 / 6400000))"
    unfolding qh by simp
  from grid have "True \<longrightarrow> grid_in_range (parsePairs ''0:2, 50:4'')"
    by simp
  from payback_spec [OF this, of DEFAULTS "''10:1, 40:3''"]
  have "\<forall>s. v_savingsHybrid (calc_vars DEFAULTS True ''0:2, 50:4'' ''10:1, 40:3'') = Some s
              \<and> Fin 0 < s \<and> truthy (net_cost DEFAULTS / s)
          \<longrightarrow> paybackHybrid (calc DEFAULTS True ''0:2, 50:4'' ''10:1, 40:3'')
              = Some (toFixed 1 (net_cost DEFAULTS / s))"
    by blast
  with hybrid_savings_small pos_h nz_h
  have "paybackHybrid (calc DEFAULTS True ''0:2, 50:4'' ''10:1, 40:3'')
          = Some (toFixed 1 (net_cost DEFAULTS / Fin (19755045819 / 6400000)))"
    by blast
  then have hyb: "paybackHybrid (calc DEFAULTS True ''0:2, 50:4'' ''10:1, 40:3'') = Some (Fin 2.5)"
    unfolding qh rh .
  from grid pos all hyb show ?thesis
    by simp
qed

section \<open>The crossover note\<close>

lemma few_entries_crossover:
  "length (parsePairs copText) < 2 \<Longrightarrow>
     crossoverTemp (calc inp True copText binsText) = None
     \<and> crossoverNote (calc inp True copText binsText) = ''''
     \<and> crossoverSeries (calc inp True copText binsText) = []"
  by (simp add: calc_def return_of_def calc_vars_def Let_def split_beta crossover_def)

text \<open>
  C2, as stated, fails: with the table switched on and a one-entry table, the note is the
  empty string.
\<close>

theorem crossover_note_counterexample:
  "length (parsePairs ''60:3.77'') = 1
   \<and> crossoverTemp (calc DEFAULTS True ''60:3.77'' DEFAULT_BINS) = None
   \<and> crossoverNote (calc DEFAULTS True ''60:3.77'' DEFAULT_BINS) = ''''"
proof -
  have len: "length (parsePairs ''60:3.77'') = 1"
    by code_simp
  then have "length (parsePairs ''60:3.77'') < 2"
    by simp
  from few_entries_crossover [OF this, of DEFAULTS DEFAULT_BINS] len show ?thesis
    by simp
qed

text \<open>
  C2, amended. With the table switched on and fewer than 2 parsed entries the crossover
  temperature is null, the note is the empty string and the series is empty. The note
  that asks for a COP table is the one of the mode without a table, where the crossover
  temperature is null too.
\<close>

theorem crossover_note_few_entries:
  "(length (parsePairs copText) < 2 \<longrightarrow>
      crossoverTemp (calc inp True copText binsText) = None
      \<and> crossoverNote (calc inp True copText binsText) = ''''
      \<and> crossoverSeries (calc inp True copText binsText) = [])
   \<and> crossoverTemp (calc inp False copText binsText) = None
   \<and> crossoverNote (calc inp False copText binsText)
       = ''Provide a COP table to compute a precise crossover temperature''"
  using few_entries_crossover [of copText inp binsText]
  by (simp add: calc_def return_of_def calc_vars_def Let_def split_beta crossover_def)

theorem crossover_note_few_entries_witness:
  "length (parsePairs '''') < 2
   \<and> crossoverTemp (calc DEFAULTS True '''' DEFAULT_BINS) = None
   \<and> crossoverNote (calc DEFAULTS True '''' DEFAULT_BINS) = ''''"
proof -
  have "length (parsePairs '''') < 2"
    by code_simp
  then show ?thesis
    using crossover_note_few_entries [of "''''" DEFAULTS DEFAULT_BINS] by simp
qed

section \<open>The crossover series\<close>

lemma parse_DEFAULT_COP: "parsePairs DEFAULT_COP = default_table"
  by code_simp

lemma crossover_fields:
  "crossoverTemp (calc inp u c b)
     = fst (crossover u c
              (Fin ((r_supplyC (rateInputs inp) + r_txC (rateInputs inp) + r_dfcEH (rateInputs inp)) / 100))
              (Fin 1 / Fin 0.1 / Fin (r_afue (rateInputs inp))
               * Fin (r_gasSupply (rateInputs inp) + r_gasDist (rateInputs inp))))"
  "crossoverSeries (calc inp u c b)
     = snd (snd (crossover u c
              (Fin ((r_supplyC (rateInputs inp) + r_txC (rateInputs inp) + r_dfcEH (rateInputs inp)) / 100))
              (Fin 1 / Fin 0.1 / Fin (r_afue (rateInputs inp))
               * Fin (r_gasSupply (rateInputs inp) + r_gasDist (rateInputs inp)))))"
  unfolding calc_def return_of_def calc_vars_def toNumber_rates by (simp_all add: Let_def split_beta)

lemma crossover_table:
  "1 < length (parsePairs c) \<Longrightarrow>
     (fst (crossover True c e g), snd (snd (crossover True c e g)))
     = crossover_scan (\<lambda>t. Fin 293.071 / interpCOP (parsePairs c) t * e) g
         (max 65 (x (parsePairs c ! (length (parsePairs c) - 1))))
         (min (- 20) (x (parsePairs c ! 0))) (min (- 20) (x (parsePairs c ! 0)))
         (Fin 293.071 / interpCOP (parsePairs c) (min (- 20) (x (parsePairs c ! 0))) * e - g) []"
  by (simp add: crossover_def Let_def split_beta)

lemma scan_default:
  "(case crossover_scan (\<lambda>t. Fin 293.071 / interpCOP default_table t * Fin 0.08022) (Fin 7.72) 65 (- 20) (- 20)
           (Fin 293.071 / interpCOP default_table (- 20) * Fin 0.08022 - Fin 7.72) [] of
      (c, s) \<Rightarrow> c = Some (Fin 39) \<and> length s = 60 \<and> s_t (last s) = 39)"
  by (simp add: crossover_scan.simps interpCOP_def interp_scan.simps round_fixed_def default_table_def)

text \<open>
  C8 fails on the code. At the initial inputs of the page the scanned domain runs from -20
  to 65 (86 steps), the crossover is found at 39, and the loop stops there: the series
  holds the 60 points from -20 to 39 only.
\<close>

theorem crossover_series_truncated:
  "min (- 20) (x (hd (parsePairs DEFAULT_COP))) = - 20
   \<and> max 65 (x (last (parsePairs DEFAULT_COP))) = 65
   \<and> crossoverTemp (calc DEFAULTS True DEFAULT_COP DEFAULT_BINS) = Some (Fin 39)
   \<and> length (crossoverSeries (calc DEFAULTS True DEFAULT_COP DEFAULT_BINS)) = 60
   \<and> s_t (last (crossoverSeries (calc DEFAULTS True DEFAULT_COP DEFAULT_BINS))) = 39"
proof -
  have rates: "Fin ((3.331 + 1.767 + 2.924) / 100) = Fin 0.08022"
      "Fin 1 / Fin 0.1 / Fin 0.95 * Fin (0.52 + 0.2134) = Fin 7.72"
    by simp_all
  have len: "1 < length (parsePairs DEFAULT_COP)"
    by (simp add: parse_DEFAULT_COP default_table_def)
  have ends: "x (default_table ! 0) = - 10" "x (default_table ! (length default_table - 1)) = 60"
      "x (hd default_table) = - 10" "x (last default_table) = 60"
    by (simp_all add: default_table_def)
  have scan: "(fst (crossover True DEFAULT_COP (Fin 0.08022) (Fin 7.72)),
               snd (snd (crossover True DEFAULT_COP (Fin 0.08022) (Fin 7.72))))
              = crossover_scan (\<lambda>t. Fin 293.071 / interpCOP default_table t * Fin 0.08022) (Fin 7.72) 65
                  (- 20) (- 20) (Fin 293.071 / interpCOP default_table (- 20) * Fin 0.08022 - Fin 7.72) []"
    unfolding crossover_table [OF len] parse_DEFAULT_COP ends by simp
  have "fst (crossover True DEFAULT_COP (Fin 0.08022) (Fin 7.72)) = Some (Fin 39)
        \<and> length (snd (snd (crossover True DEFAULT_COP (Fin 0.08022) (Fin 7.72)))) = 60
        \<and> s_t (last (snd (snd (crossover True DEFAULT_COP (Fin 0.08022) (Fin 7.72))))) = 39"
    using scan_default unfolding scan [symmetric] by simp
  then show ?thesis
    unfolding crossover_fields rateInputs_DEFAULTS rates.simps rates parse_DEFAULT_COP ends
    by simp
qed

section \<open>Zero divisors\<close>

lemma rateInputs_afue_0:
  "rateInputs (DEFAULTS\<lparr>afue := ''0''\<rparr>) =
     \<lparr>r_kWhBase = 97300, r_supplyC = 3.331, r_txC = 1.767, r_dfcNon = 6.062, r_dfcEH = 2.924,
      r_gasSupply = 0.52, r_gasDist = 0.2134, r_afue = 0, r_heatMMBtu = 37.5,
      r_seasonalCOP = 2.2, r_gross = 10354, r_credits = 2600\<rparr>"
  by code_simp

lemma rateInputs_afue_cop_0:
  "rateInputs (DEFAULTS\<lparr>afue := ''0'', seasonalCOP := ''0''\<rparr>) =
     \<lparr>r_kWhBase = 97300, r_supplyC = 3.331, r_txC = 1.767, r_dfcNon = 6.062, r_dfcEH = 2.924,
      r_gasSupply = 0.52, r_gasDist = 0.2134, r_afue = 0, r_heatMMBtu = 37.5,
      r_seasonalCOP = 0, r_gross = 10354, r_credits = 2600\<rparr>"
  by code_simp

text \<open>
  C1 fails on the code. The divisions by the AFUE, by the seasonal COP and by an
  interpolated COP have no guard against zero: with the AFUE 0 the baseline and the
  savings are infinite, and with the seasonal COP 0 as well the all-electric cost is
  infinite and the savings are NaN.
\<close>

theorem zero_afue_not_finite:
  "baseline (calc (DEFAULTS\<lparr>afue := ''0''\<rparr>) False DEFAULT_COP DEFAULT_BINS) = PosInfinity
   \<and> savingsAll (calc (DEFAULTS\<lparr>afue := ''0''\<rparr>) False DEFAULT_COP DEFAULT_BINS) = PosInfinity
   \<and> allElectric (calc (DEFAULTS\<lparr>afue := ''0'', seasonalCOP := ''0''\<rparr>) False DEFAULT_COP DEFAULT_BINS)
       = PosInfinity
   \<and> savingsAll (calc (DEFAULTS\<lparr>afue := ''0'', seasonalCOP := ''0''\<rparr>) False DEFAULT_COP DEFAULT_BINS)
       = NaN"
  unfolding result_fields savings_eq [THEN conjunct1] no_table_vars
    rateInputs_afue_0 rateInputs_afue_cop_0
  by (simp add: minus_number_def)

end
